theory Spec2Isabelle
  imports Main "HOL-Library.Sublist"
begin

section \<open>Data model (src/src/types/index.ts)\<close>

datatype TaskStatus = PENDING | IN_PROGRESS | COMPLETED | CANCELLED

datatype TaskPriority = LOW | MEDIUM | HIGH | URGENT

datatype UpdateType = CREATED | UPDATED | DELETED

text \<open>A \<^verbatim>\<open>Date\<close> is its \<^verbatim>\<open>getTime()\<close> value, milliseconds since the epoch.\<close>

type_synonym Date = int

text \<open>
  The interface \<^verbatim>\<open>Task\<close>. The field \<^verbatim>\<open>id\<close> is named \<open>id_of\<close> here, since
  \<open>id\<close> is the identity function of HOL. The optional \<^verbatim>\<open>due_date\<close> is an option.
\<close>

record Task =
  id_of :: string
  title :: string
  description :: string
  status :: TaskStatus
  priority :: TaskPriority
  assignee_id :: string
  created_at :: Date
  updated_at :: Date
  due_date :: "Date option"
  tags :: "string list"

text \<open>
  The argument of \<^verbatim>\<open>createTask\<close>, \<^verbatim>\<open>Omit<Task, 'id' | 'created_at' | 'updated_at'>\<close>.
\<close>

record TaskData =
  d_title :: string
  d_description :: string
  d_status :: TaskStatus
  d_priority :: TaskPriority
  d_assignee_id :: string
  d_due_date :: "Date option"
  d_tags :: "string list"

text \<open>
  The argument of \<^verbatim>\<open>updateTask\<close>, \<^verbatim>\<open>Partial<Omit<Task, 'id' | 'created_at'>>\<close>:
  \<open>None\<close> is a property that the object does not have.
\<close>

record TaskPatch =
  p_title :: "string option"
  p_description :: "string option"
  p_status :: "TaskStatus option"
  p_priority :: "TaskPriority option"
  p_assignee_id :: "string option"
  p_updated_at :: "Date option"
  p_due_date :: "Date option"
  p_tags :: "string list option"

text \<open>
  The request messages. A field that the handlers test for presence
  (\<^verbatim>\<open>!x\<close>, \<^verbatim>\<open>x || d\<close>, \<^verbatim>\<open>x !== undefined\<close>) is an option, \<open>None\<close> being
  \<^verbatim>\<open>undefined\<close>.
\<close>

record CreateTaskRequest =
  c_title :: "string option"
  c_description :: "string option"
  c_priority :: "TaskPriority option"
  c_assignee_id :: "string option"
  c_due_date :: "Date option"
  c_tags :: "string list option"

record UpdateTaskRequest =
  u_id :: string
  u_title :: "string option"
  u_description :: "string option"
  u_status :: "TaskStatus option"
  u_priority :: "TaskPriority option"
  u_assignee_id :: "string option"
  u_due_date :: "Date option"
  u_tags :: "string list option"

record ListTasksRequest =
  l_page :: "int option"
  l_page_size :: "int option"
  l_status_filter :: "TaskStatus option"
  l_priority_filter :: "TaskPriority option"
  l_assignee_filter :: "string option"

record ListFilter =
  page :: int
  page_size :: int
  status_filter :: "TaskStatus option"
  priority_filter :: "TaskPriority option"
  assignee_filter :: "string option"

record ListTasksResponse =
  r_tasks :: "Task list"
  r_total_count :: nat
  r_page :: int
  r_page_size :: int

record SubscribeTaskUpdatesRequest =
  s_user_id :: string
  s_task_ids :: "string list option"

text \<open>The interface \<^verbatim>\<open>TaskUpdate\<close>: \<^verbatim>\<open>type\<close>, \<^verbatim>\<open>task\<close>, \<^verbatim>\<open>timestamp\<close>.\<close>

record TaskUpdate =
  type_u :: UpdateType
  task_u :: Task
  timestamp_u :: Date

record JWTPayload =
  user_id :: string
  username :: string

text \<open>The gRPC status codes that the task handlers answer with.\<close>

datatype status_code = UNAUTHENTICATED | INVALID_ARGUMENT | NOT_FOUND | INTERNAL

section \<open>Callbacks, the environment and the state\<close>

text \<open>
  A subscriber callback is a function object, compared by identity. Two kinds reach
  \<^verbatim>\<open>subscribeToTaskUpdates\<close>: the closure that \<^verbatim>\<open>SubscribeTaskUpdates\<close> builds for
  its call, which wraps \<^verbatim>\<open>call.write(update)\<close> in \<^verbatim>\<open>try/catch\<close> and logs the
  error, and any other function a direct caller of the store passes in. The number
  identifies the stream, or the function. Callbacks here do not call back into the
  store.
\<close>

datatype callback = SessionSink nat | Listener nat

text \<open>An exception that leaves a store operation: the one thrown by a listener.\<close>

datatype exn = ListenerError nat

text \<open>
  What the code reads from outside itself: the values \<^verbatim>\<open>uuidv4()\<close> returns (by
  number of the call), the readings of \<^verbatim>\<open>new Date()\<close> within one operation (by
  position), \<^verbatim>\<open>jwt.verify\<close> with the server's secret (\<open>None\<close> when it throws), and
  whether a write to a stream, or a listener, throws.
\<close>

record env =
  uuidv4 :: "nat \<Rightarrow> string"
  clock :: "nat \<Rightarrow> Date"
  jwt_verify :: "string \<Rightarrow> JWTPayload option"
  write_throws :: "nat \<Rightarrow> bool"
  listener_throws :: "nat \<Rightarrow> bool"

text \<open>
  The state: the two maps of \<^verbatim>\<open>DataStore\<close> that the task operations use, as
  association lists in insertion order (a JavaScript \<^verbatim>\<open>Map\<close> and \<^verbatim>\<open>Set\<close> iterate
  in insertion order); the number of \<^verbatim>\<open>uuidv4()\<close> calls made so far; the updates each
  callback has received, in order; the errors logged by the session sinks; and the
  \<^verbatim>\<open>'error'\<close> events emitted on the streams.
\<close>

record world =
  tasks :: "(string \<times> Task) list"
  taskUpdateSubscribers :: "(string \<times> callback list) list"
  uuid_calls :: nat
  delivered :: "(callback \<times> TaskUpdate) list"
  write_errors :: "nat list"
  emitted :: "(nat \<times> status_code) list"

subsection \<open>Map and Set of JavaScript\<close>

text \<open>\<^verbatim>\<open>Map.set\<close>: an existing key keeps its position, a new key goes last.\<close>

fun map_set :: "'k \<Rightarrow> 'v \<Rightarrow> ('k \<times> 'v) list \<Rightarrow> ('k \<times> 'v) list" where
  "map_set k v [] = [(k, v)]"
| "map_set k v (e # m) = (if fst e = k then (k, v) # m else e # map_set k v m)"

definition map_delete :: "'k \<Rightarrow> ('k \<times> 'v) list \<Rightarrow> ('k \<times> 'v) list" where
  "map_delete k m = filter (\<lambda>e. fst e \<noteq> k) m"

definition set_add :: "'a \<Rightarrow> 'a list \<Rightarrow> 'a list" where
  "set_add x xs = (if x \<in> set xs then xs else xs @ [x])"

subsection \<open>Strings of JavaScript\<close>

text \<open>\<^verbatim>\<open>s.split(c)\<close> for a separator of one character, and \<^verbatim>\<open>a.join(sep)\<close>.\<close>

fun split_on :: "char \<Rightarrow> string \<Rightarrow> string list" where
  "split_on c [] = [[]]"
| "split_on c (x # xs) =
     (if x = c then [] # split_on c xs
      else (x # hd (split_on c xs)) # tl (split_on c xs))"

fun join :: "string \<Rightarrow> string list \<Rightarrow> string" where
  "join sep [] = []"
| "join sep [x] = x"
| "join sep (x # y # ys) = x @ sep @ join sep (y # ys)"

section \<open>The store (DataStore)\<close>

subsection \<open>Streaming operations\<close>

text \<open>
  \<^verbatim>\<open>subscribeToTaskUpdates\<close>. An array, also the empty one, is truthy, so every
  explicit list of identifiers takes the first branch of the key. The handle returned
  is the closure over \<^verbatim>\<open>key\<close> and \<^verbatim>\<open>callback\<close>; \<open>unsubscribe\<close> is its body.
\<close>

definition subscription_key :: "string \<Rightarrow> string list option \<Rightarrow> string" where
  "subscription_key userId taskIds =
     (case taskIds of
        Some ids \<Rightarrow> userId @ '':'' @ join '','' ids
      | None \<Rightarrow> userId)"

definition subscribeToTaskUpdates ::
  "string \<Rightarrow> callback \<Rightarrow> string list option \<Rightarrow> world \<Rightarrow> (string \<times> callback) \<times> world" where
  "subscribeToTaskUpdates userId cb taskIds w =
     (let key = subscription_key userId taskIds;
          subs = taskUpdateSubscribers w;
          subs1 = (if map_of subs key = None then map_set key [] subs else subs);
          subs2 = map_set key (set_add cb (the (map_of subs1 key))) subs1
      in ((key, cb), w\<lparr>taskUpdateSubscribers := subs2\<rparr>))"

definition unsubscribe :: "string \<times> callback \<Rightarrow> world \<Rightarrow> world" where
  "unsubscribe h w =
     (case map_of (taskUpdateSubscribers w) (fst h) of
        None \<Rightarrow> w
      | Some subscribers \<Rightarrow>
          (let subscribers1 = removeAll (snd h) subscribers
           in if length subscribers1 = 0
              then w\<lparr>taskUpdateSubscribers := map_delete (fst h) (taskUpdateSubscribers w)\<rparr>
              else w\<lparr>taskUpdateSubscribers :=
                       map_set (fst h) subscribers1 (taskUpdateSubscribers w)\<rparr>))"

text \<open>
  One call \<^verbatim>\<open>callback(update)\<close>. The session sink catches a failing write and logs
  it; a listener that throws throws into \<^verbatim>\<open>forEach\<close>.
\<close>

fun invoke :: "env \<Rightarrow> callback \<Rightarrow> TaskUpdate \<Rightarrow> world \<Rightarrow> exn option \<times> world" where
  "invoke e (SessionSink n) u w =
     (if write_throws e n then (None, w\<lparr>write_errors := write_errors w @ [n]\<rparr>)
      else (None, w\<lparr>delivered := delivered w @ [(SessionSink n, u)]\<rparr>))"
| "invoke e (Listener n) u w =
     (if listener_throws e n then (Some (ListenerError n), w)
      else (None, w\<lparr>delivered := delivered w @ [(Listener n, u)]\<rparr>))"

text \<open>\<^verbatim>\<open>subscribers.forEach(callback => callback(update))\<close>: no \<^verbatim>\<open>try\<close> around it.\<close>

fun forEach :: "env \<Rightarrow> TaskUpdate \<Rightarrow> callback list \<Rightarrow> world \<Rightarrow> exn option \<times> world" where
  "forEach e u [] w = (None, w)"
| "forEach e u (cb # cbs) w =
     (case invoke e cb u w of
        (Some x, w1) \<Rightarrow> (Some x, w1)
      | (None, w1) \<Rightarrow> forEach e u cbs w1)"

text \<open>
  The test that the loop of \<^verbatim>\<open>notifyTaskUpdate\<close> makes on a key: a key without
  \<^verbatim>\<open>':'\<close> is a general subscription; otherwise the second piece of
  \<^verbatim>\<open>key.split(':')\<close> must be non-empty and its pieces between commas must include
  the task's identifier.
\<close>

definition key_matches :: "string \<Rightarrow> string \<Rightarrow> bool" where
  "key_matches key tid =
     (if CHR '':'' \<notin> set key then True
      else (case split_on CHR '':'' key of
              _ # taskIds # _ \<Rightarrow> taskIds \<noteq> [] \<and> tid \<in> set (split_on CHR '','' taskIds)
            | _ \<Rightarrow> False))"

fun notify_entries ::
  "env \<Rightarrow> TaskUpdate \<Rightarrow> (string \<times> callback list) list \<Rightarrow> world \<Rightarrow> exn option \<times> world" where
  "notify_entries e u [] w = (None, w)"
| "notify_entries e u ((key, subscribers) # rest) w =
     (if key_matches key (id_of (task_u u))
      then (case forEach e u subscribers w of
              (Some x, w1) \<Rightarrow> (Some x, w1)
            | (None, w1) \<Rightarrow> notify_entries e u rest w1)
      else notify_entries e u rest w)"

text \<open>\<^verbatim>\<open>notifyTaskUpdate\<close>; \<open>k\<close> is the position of its clock reading in the operation.\<close>

definition notifyTaskUpdate ::
  "env \<Rightarrow> nat \<Rightarrow> UpdateType \<Rightarrow> Task \<Rightarrow> world \<Rightarrow> exn option \<times> world" where
  "notifyTaskUpdate e k ty t w =
     notify_entries e \<lparr>type_u = ty, task_u = t, timestamp_u = clock e k\<rparr>
       (taskUpdateSubscribers w) w"

subsection \<open>Task operations\<close>

definition createTask :: "env \<Rightarrow> TaskData \<Rightarrow> world \<Rightarrow> (exn + Task) \<times> world" where
  "createTask e data w =
     (let t = \<lparr>id_of = uuidv4 e (uuid_calls w),
               title = d_title data, description = d_description data,
               status = d_status data, priority = d_priority data,
               assignee_id = d_assignee_id data,
               created_at = clock e 0, updated_at = clock e 1,
               due_date = d_due_date data, tags = d_tags data\<rparr>;
          w1 = w\<lparr>uuid_calls := Suc (uuid_calls w), tasks := map_set (id_of t) t (tasks w)\<rparr>
      in (case notifyTaskUpdate e 2 CREATED t w1 of
            (Some x, w2) \<Rightarrow> (Inl x, w2)
          | (None, w2) \<Rightarrow> (Inr t, w2)))"

definition getTask :: "string \<Rightarrow> world \<Rightarrow> Task option" where
  "getTask i w = map_of (tasks w) i"

definition merge_task :: "Task \<Rightarrow> TaskPatch \<Rightarrow> Date \<Rightarrow> Task" where
  "merge_task t updates now =
     \<lparr>id_of = id_of t,
      title = (case p_title updates of Some v \<Rightarrow> v | None \<Rightarrow> title t),
      description = (case p_description updates of Some v \<Rightarrow> v | None \<Rightarrow> description t),
      status = (case p_status updates of Some v \<Rightarrow> v | None \<Rightarrow> status t),
      priority = (case p_priority updates of Some v \<Rightarrow> v | None \<Rightarrow> priority t),
      assignee_id = (case p_assignee_id updates of Some v \<Rightarrow> v | None \<Rightarrow> assignee_id t),
      created_at = created_at t,
      updated_at = now,
      due_date = (case p_due_date updates of Some v \<Rightarrow> Some v | None \<Rightarrow> due_date t),
      tags = (case p_tags updates of Some v \<Rightarrow> v | None \<Rightarrow> tags t)\<rparr>"

definition updateTask ::
  "env \<Rightarrow> string \<Rightarrow> TaskPatch \<Rightarrow> world \<Rightarrow> (exn + Task option) \<times> world" where
  "updateTask e i updates w =
     (case map_of (tasks w) i of
        None \<Rightarrow> (Inr None, w)
      | Some t \<Rightarrow>
          (let updatedTask = merge_task t updates (clock e 0);
               w1 = w\<lparr>tasks := map_set i updatedTask (tasks w)\<rparr>
           in (case notifyTaskUpdate e 1 UPDATED updatedTask w1 of
                 (Some x, w2) \<Rightarrow> (Inl x, w2)
               | (None, w2) \<Rightarrow> (Inr (Some updatedTask), w2))))"

definition deleteTask :: "env \<Rightarrow> string \<Rightarrow> world \<Rightarrow> (exn + bool) \<times> world" where
  "deleteTask e i w =
     (case map_of (tasks w) i of
        None \<Rightarrow> (Inr False, w)
      | Some t \<Rightarrow>
          (let w1 = w\<lparr>tasks := map_delete i (tasks w)\<rparr>
           in (case notifyTaskUpdate e 0 DELETED t w1 of
                 (Some x, w2) \<Rightarrow> (Inl x, w2)
               | (None, w2) \<Rightarrow> (Inr True, w2))))"

text \<open>
  \<^verbatim>\<open>Array.prototype.slice(start, end)\<close>: a negative index counts from the end.
\<close>

definition js_slice :: "int \<Rightarrow> int \<Rightarrow> 'a list \<Rightarrow> 'a list" where
  "js_slice start end xs =
     (let n = int (length xs);
          k = (if start < 0 then max (n + start) 0 else min start n);
          final = (if end < 0 then max (n + end) 0 else min end n)
      in take (nat (final - k)) (drop (nat k) xs))"

text \<open>
  \<^verbatim>\<open>listTasks\<close>. Each filter is applied when its value is truthy: the enumeration
  values are non-empty strings, the empty assignee string is falsy. The sort of
  \<^verbatim>\<open>Array.prototype.sort\<close> is stable; its comparator
  \<^verbatim>\<open>b.created_at.getTime() - a.created_at.getTime()\<close> orders by descending
  \<^verbatim>\<open>created_at\<close> and by nothing else.
\<close>

definition listTasks :: "ListFilter \<Rightarrow> world \<Rightarrow> ListTasksResponse" where
  "listTasks f w =
     (let allTasks = map snd (tasks w);
          filtered1 = (case status_filter f of
                         Some s \<Rightarrow> filter (\<lambda>t. status t = s) allTasks
                       | None \<Rightarrow> allTasks);
          filtered2 = (case priority_filter f of
                         Some p \<Rightarrow> filter (\<lambda>t. priority t = p) filtered1
                       | None \<Rightarrow> filtered1);
          filtered3 = (case assignee_filter f of
                         Some a \<Rightarrow> (if a = [] then filtered2
                                    else filter (\<lambda>t. assignee_id t = a) filtered2)
                       | None \<Rightarrow> filtered2);
          filteredTasks = sort_key (\<lambda>t. - created_at t) filtered3;
          totalCount = length filteredTasks;
          startIndex = (page f - 1) * page_size f;
          endIndex = startIndex + page_size f
      in \<lparr>r_tasks = js_slice startIndex endIndex filteredTasks,
          r_total_count = totalCount,
          r_page = page f,
          r_page_size = page_size f\<rparr>)"

section \<open>Authentication (src/src/middleware/auth.ts)\<close>

text \<open>
  The metadata of a call is the array \<^verbatim>\<open>metadata.get('authorization')\<close>.
\<close>

definition extractTokenFromMetadata :: "string list \<Rightarrow> string option" where
  "extractTokenFromMetadata authHeader =
     (case authHeader of
        [] \<Rightarrow> None
      | token # _ \<Rightarrow>
          (if take 7 token = ''Bearer '' then Some (drop 7 token) else Some token))"

definition verifyToken :: "env \<Rightarrow> string \<Rightarrow> JWTPayload option" where
  "verifyToken e token = jwt_verify e token"

definition authenticateCall :: "env \<Rightarrow> string list \<Rightarrow> JWTPayload option" where
  "authenticateCall e metadata =
     (case extractTokenFromMetadata metadata of
        None \<Rightarrow> None
      | Some token \<Rightarrow> (if token = [] then None else verifyToken e token))"

section \<open>The task service (TaskServiceImpl)\<close>

text \<open>\<^verbatim>\<open>!s\<close> for a string that may be absent: absent or empty.\<close>

definition falsy :: "string option \<Rightarrow> bool" where
  "falsy s = (case s of None \<Rightarrow> True | Some v \<Rightarrow> v = [])"

definition CreateTask ::
  "env \<Rightarrow> string list \<Rightarrow> CreateTaskRequest \<Rightarrow> world \<Rightarrow> (status_code + Task) \<times> world" where
  "CreateTask e metadata request w =
     (case authenticateCall e metadata of
        None \<Rightarrow> (Inl UNAUTHENTICATED, w)
      | Some user \<Rightarrow>
          (if falsy (c_title request) \<or> falsy (c_description request)
           then (Inl INVALID_ARGUMENT, w)
           else (case createTask e
                   \<lparr>d_title = the (c_title request),
                    d_description = the (c_description request),
                    d_status = PENDING,
                    d_priority = (case c_priority request of Some p \<Rightarrow> p | None \<Rightarrow> MEDIUM),
                    d_assignee_id = (if falsy (c_assignee_id request) then user_id user
                                     else the (c_assignee_id request)),
                    d_due_date = c_due_date request,
                    d_tags = (case c_tags request of Some ts \<Rightarrow> ts | None \<Rightarrow> [])\<rparr> w of
                   (Inl x, w1) \<Rightarrow> (Inl INTERNAL, w1)
                 | (Inr t, w1) \<Rightarrow> (Inr t, w1))))"

definition GetTask ::
  "env \<Rightarrow> string list \<Rightarrow> string \<Rightarrow> world \<Rightarrow> (status_code + Task)" where
  "GetTask e metadata i w =
     (case authenticateCall e metadata of
        None \<Rightarrow> Inl UNAUTHENTICATED
      | Some user \<Rightarrow>
          (case getTask i w of None \<Rightarrow> Inl NOT_FOUND | Some t \<Rightarrow> Inr t))"

definition UpdateTask ::
  "env \<Rightarrow> string list \<Rightarrow> UpdateTaskRequest \<Rightarrow> world \<Rightarrow> (status_code + Task) \<times> world" where
  "UpdateTask e metadata request w =
     (case authenticateCall e metadata of
        None \<Rightarrow> (Inl UNAUTHENTICATED, w)
      | Some user \<Rightarrow>
          (case getTask (u_id request) w of
             None \<Rightarrow> (Inl NOT_FOUND, w)
           | Some existingTask \<Rightarrow>
               (let updates = \<lparr>p_title = u_title request,
                               p_description = u_description request,
                               p_status = u_status request,
                               p_priority = u_priority request,
                               p_assignee_id = u_assignee_id request,
                               p_updated_at = None,
                               p_due_date = u_due_date request,
                               p_tags = u_tags request\<rparr>
                in (case updateTask e (u_id request) updates w of
                      (Inl x, w1) \<Rightarrow> (Inl INTERNAL, w1)
                    | (Inr None, w1) \<Rightarrow> (Inl INTERNAL, w1)
                    | (Inr (Some updatedTask), w1) \<Rightarrow> (Inr updatedTask, w1)))))"

definition DeleteTask ::
  "env \<Rightarrow> string list \<Rightarrow> string \<Rightarrow> world \<Rightarrow> (status_code + unit) \<times> world" where
  "DeleteTask e metadata i w =
     (case authenticateCall e metadata of
        None \<Rightarrow> (Inl UNAUTHENTICATED, w)
      | Some user \<Rightarrow>
          (case deleteTask e i w of
             (Inl x, w1) \<Rightarrow> (Inl INTERNAL, w1)
           | (Inr False, w1) \<Rightarrow> (Inl NOT_FOUND, w1)
           | (Inr True, w1) \<Rightarrow> (Inr (), w1)))"

text \<open>
  \<^verbatim>\<open>ListTasks\<close>: \<^verbatim>\<open>request.page || 1\<close> and
  \<^verbatim>\<open>Math.min(request.page_size || 10, 100)\<close>; zero and absent are falsy.
\<close>

definition or_default :: "int option \<Rightarrow> int \<Rightarrow> int" where
  "or_default x d = (case x of None \<Rightarrow> d | Some v \<Rightarrow> (if v = 0 then d else v))"

definition ListTasks ::
  "env \<Rightarrow> string list \<Rightarrow> ListTasksRequest \<Rightarrow> world \<Rightarrow> status_code + ListTasksResponse" where
  "ListTasks e metadata request w =
     (case authenticateCall e metadata of
        None \<Rightarrow> Inl UNAUTHENTICATED
      | Some user \<Rightarrow>
          (let page = or_default (l_page request) 1;
               pageSize = min (or_default (l_page_size request) 10) 100
           in Inr (listTasks \<lparr>page = page, page_size = pageSize,
                               status_filter = l_status_filter request,
                               priority_filter = l_priority_filter request,
                               assignee_filter = l_assignee_filter request\<rparr> w)))"

text \<open>
  The message that \<^verbatim>\<open>SubscribeTaskUpdates\<close> writes once the subscription is
  registered.
\<close>

definition connection_update :: "env \<Rightarrow> JWTPayload \<Rightarrow> TaskUpdate" where
  "connection_update e user =
     \<lparr>type_u = CREATED,
      task_u = \<lparr>id_of = ''connection'',
                title = ''Streaming connection established'',
                description = ''You are now subscribed to task updates'',
                status = COMPLETED, priority = LOW,
                assignee_id = user_id user,
                created_at = clock e 0, updated_at = clock e 1,
                due_date = None, tags = [''system'']\<rparr>,
      timestamp_u = clock e 2\<rparr>"

text \<open>
  \<^verbatim>\<open>SubscribeTaskUpdates\<close> on the stream \<open>c\<close>. The first write is outside the
  sink's \<^verbatim>\<open>try\<close>: when it throws, the outer \<^verbatim>\<open>catch\<close> emits \<^verbatim>\<open>'error'\<close> on the
  call, and the handler registered by \<^verbatim>\<open>call.on('error', ...)\<close> unsubscribes.
\<close>

definition SubscribeTaskUpdates ::
  "env \<Rightarrow> nat \<Rightarrow> string list \<Rightarrow> SubscribeTaskUpdatesRequest \<Rightarrow> world \<Rightarrow> world" where
  "SubscribeTaskUpdates e c metadata request w =
     (case authenticateCall e metadata of
        None \<Rightarrow> w\<lparr>emitted := emitted w @ [(c, UNAUTHENTICATED)]\<rparr>
      | Some user \<Rightarrow>
          (case subscribeToTaskUpdates (user_id user) (SessionSink c) (s_task_ids request) w of
             (h, w1) \<Rightarrow>
               (if write_throws e c
                then unsubscribe h (w1\<lparr>emitted := emitted w1 @ [(c, INTERNAL)]\<rparr>)
                else w1\<lparr>delivered :=
                          delivered w1 @ [(SessionSink c, connection_update e user)]\<rparr>)))"

text \<open>The client closes the stream: the \<^verbatim>\<open>'cancelled'\<close> handler runs the handle.\<close>

definition cancelled :: "string \<times> callback \<Rightarrow> world \<Rightarrow> world" where
  "cancelled h w = unsubscribe h w"

section \<open>What is observed of a run\<close>

text \<open>
  Whether a call of the callback throws into \<^verbatim>\<open>forEach\<close> (the session sink never
  does, it catches the error of its write), and whether the delivery behind the callback
  fails at all.
\<close>

definition may_throw :: "env \<Rightarrow> callback \<Rightarrow> bool" where
  "may_throw e cb = (case cb of SessionSink n \<Rightarrow> False | Listener n \<Rightarrow> listener_throws e n)"

definition fails :: "env \<Rightarrow> callback \<Rightarrow> bool" where
  "fails e cb = (case cb of SessionSink n \<Rightarrow> write_throws e n | Listener n \<Rightarrow> listener_throws e n)"

text \<open>The callbacks registered under a key: \<^verbatim>\<open>taskUpdateSubscribers.get(key)\<close>, or none.\<close>

definition subscribers_of :: "string \<Rightarrow> world \<Rightarrow> callback list" where
  "subscribers_of key w =
     (case map_of (taskUpdateSubscribers w) key of None \<Rightarrow> [] | Some cbs \<Rightarrow> cbs)"

text \<open>The updates one callback has received, oldest first.\<close>

definition received :: "callback \<Rightarrow> world \<Rightarrow> TaskUpdate list" where
  "received cb w = map snd (filter (\<lambda>d. fst d = cb) (delivered w))"

text \<open>
  A sequence of store mutations, each run in its own environment. An exception of a
  listener leaves the operation; the state it leaves behind is the state the next
  operation starts from.
\<close>

datatype mutation = Create TaskData | Update string TaskPatch | Delete string

fun mutate :: "env \<Rightarrow> mutation \<Rightarrow> world \<Rightarrow> world" where
  "mutate e (Create data) w = snd (createTask e data w)"
| "mutate e (Update i updates) w = snd (updateTask e i updates w)"
| "mutate e (Delete i) w = snd (deleteTask e i w)"

fun mutations :: "(env \<times> mutation) list \<Rightarrow> world \<Rightarrow> world" where
  "mutations [] w = w"
| "mutations (em # ems) w = mutations ems (mutate (fst em) (snd em) w)"

text \<open>
  The conjunction of the filters of a list request that are supplied, as one predicate
  on a record.
\<close>

definition matches_filter :: "ListFilter \<Rightarrow> Task \<Rightarrow> bool" where
  "matches_filter f t =
     ((case status_filter f of Some s \<Rightarrow> status t = s | None \<Rightarrow> True) \<and>
      (case priority_filter f of Some p \<Rightarrow> priority t = p | None \<Rightarrow> True) \<and>
      (case assignee_filter f of Some a \<Rightarrow> a = [] \<or> assignee_id t = a | None \<Rightarrow> True))"

section \<open>Sample values\<close>

text \<open>
  An environment where the token \<^verbatim>\<open>good\<close> verifies as user \<^verbatim>\<open>u1\<close>, the write to
  stream 1 throws and listener 9 throws.
\<close>

definition demo_env :: env where
  "demo_env =
     \<lparr>uuidv4 = (\<lambda>n. ''task-'' @ replicate n (CHR ''i'')),
      clock = (\<lambda>k. 1700000000000 + int k),
      jwt_verify = (\<lambda>token. if token = ''good''
                             then Some \<lparr>user_id = ''u1'', username = ''admin''\<rparr> else None),
      write_throws = (\<lambda>c. c = 1),
      listener_throws = (\<lambda>n. n = 9)\<rparr>"

text \<open>
  Stores: the empty one; two records created in the same millisecond, \<^verbatim>\<open>b\<close> inserted
  before \<^verbatim>\<open>a\<close>, and the same two inserted the other way round; the two records with
  subscribers (in the third, the listener that throws is under a key that no task
  matches); 102 records.
\<close>

definition empty_world :: world where
  "empty_world =
     \<lparr>tasks = [], taskUpdateSubscribers = [], uuid_calls = 0, delivered = [],
      write_errors = [], emitted = []\<rparr>"

definition task_a :: Task where
  "task_a = \<lparr>id_of = ''a'', title = ''A'', description = ''first'', status = PENDING,
             priority = HIGH, assignee_id = ''u1'', created_at = 1000, updated_at = 1000,
             due_date = None, tags = [''x'']\<rparr>"

definition task_b :: Task where
  "task_b = \<lparr>id_of = ''b'', title = ''B'', description = ''second'', status = COMPLETED,
             priority = LOW, assignee_id = ''u2'', created_at = 1000, updated_at = 1000,
             due_date = Some 5000, tags = []\<rparr>"

definition demo_store :: world where
  "demo_store = empty_world\<lparr>tasks := [(''b'', task_b), (''a'', task_a)]\<rparr>"

definition swapped_store :: world where
  "swapped_store = empty_world\<lparr>tasks := [(''a'', task_a), (''b'', task_b)]\<rparr>"

definition two_sinks :: world where
  "two_sinks = demo_store\<lparr>taskUpdateSubscribers :=
     [(''u1'', [SessionSink 1]), (''u2'', [SessionSink 2])]\<rparr>"

definition listener_first :: world where
  "listener_first = demo_store\<lparr>taskUpdateSubscribers :=
     [(''u1'', [Listener 9]), (''u2'', [SessionSink 2])]\<rparr>"

definition listener_aside :: world where
  "listener_aside = demo_store\<lparr>taskUpdateSubscribers :=
     [(''u1:zz'', [Listener 9]), (''u2'', [SessionSink 2])]\<rparr>"

definition shared_key :: world where
  "shared_key = demo_store\<lparr>taskUpdateSubscribers :=
     [(''u2'', [SessionSink 2]), (''u1'', [SessionSink 4, Listener 3])]\<rparr>"

definition numbered_task :: "nat \<Rightarrow> Task" where
  "numbered_task n = \<lparr>id_of = uuidv4 demo_env n, title = ''T'', description = ''D'',
      status = PENDING, priority = MEDIUM, assignee_id = ''u1'',
      created_at = 1700000000000 + int n, updated_at = 1700000000000 + int n,
      due_date = None, tags = []\<rparr>"

definition big_store :: world where
  "big_store = empty_world\<lparr>tasks := map (\<lambda>n. (uuidv4 demo_env n, numbered_task n)) [0..<102],
                            uuid_calls := 102\<rparr>"

text \<open>Requests and arguments.\<close>

definition demo_create :: CreateTaskRequest where
  "demo_create =
     \<lparr>c_title = Some ''A'', c_description = Some ''first'', c_priority = None,
      c_assignee_id = None, c_due_date = None, c_tags = None\<rparr>"

definition demo_data :: TaskData where
  "demo_data = \<lparr>d_title = ''C'', d_description = ''third'', d_status = PENDING,
                d_priority = MEDIUM, d_assignee_id = ''u1'', d_due_date = None, d_tags = []\<rparr>"

definition demo_patch :: TaskPatch where
  "demo_patch = \<lparr>p_title = None, p_description = None, p_status = Some IN_PROGRESS,
                 p_priority = None, p_assignee_id = None, p_updated_at = None,
                 p_due_date = None, p_tags = None\<rparr>"

definition demo_filter :: ListFilter where
  "demo_filter = \<lparr>page = 1, page_size = 10, status_filter = None, priority_filter = None,
                  assignee_filter = None\<rparr>"

definition negative_size :: ListTasksRequest where
  "negative_size = \<lparr>l_page = None, l_page_size = Some (- 1), l_status_filter = None,
                     l_priority_filter = None, l_assignee_filter = None\<rparr>"

definition comma_request :: SubscribeTaskUpdatesRequest where
  "comma_request = \<lparr>s_user_id = ''u1'', s_task_ids = Some [''x,a'']\<rparr>"

section \<open>Maps\<close>

lemma map_of_map_set: "map_of (map_set k v m) k' = (if k' = k then Some v else map_of m k')"
  by (induction m) auto

lemma map_of_map_delete: "map_of (map_delete k m) k' = (if k' = k then None else map_of m k')"
  by (induction m) (auto simp: map_delete_def)

lemma map_set_idem: "map_set k v (map_set k v' m) = map_set k v m"
  by (induction m) auto

section \<open>What a broadcast leaves alone\<close>

lemma invoke_frame:
  "tasks (snd (invoke e cb u w)) = tasks w"
  "taskUpdateSubscribers (snd (invoke e cb u w)) = taskUpdateSubscribers w"
  "uuid_calls (snd (invoke e cb u w)) = uuid_calls w"
  "emitted (snd (invoke e cb u w)) = emitted w"
  by (cases cb; simp)+

lemma forEach_frame:
  "tasks (snd (forEach e u cbs w)) = tasks w \<and>
   taskUpdateSubscribers (snd (forEach e u cbs w)) = taskUpdateSubscribers w \<and>
   uuid_calls (snd (forEach e u cbs w)) = uuid_calls w \<and>
   emitted (snd (forEach e u cbs w)) = emitted w"
proof (induction cbs arbitrary: w)
  case Nil
  then show ?case by simp
next
  case (Cons cb cbs)
  obtain r w1 where inv: "invoke e cb u w = (r, w1)" by (cases "invoke e cb u w")
  have fr: "tasks w1 = tasks w" "taskUpdateSubscribers w1 = taskUpdateSubscribers w"
    "uuid_calls w1 = uuid_calls w" "emitted w1 = emitted w"
    using invoke_frame [of e cb u w] inv by simp_all
  show ?case
  proof (cases r)
    case None
    with inv fr Cons.IH [of w1] show ?thesis by simp
  next
    case (Some x)
    with inv fr show ?thesis by simp
  qed
qed

lemma notify_entries_frame:
  "tasks (snd (notify_entries e u es w)) = tasks w \<and>
   taskUpdateSubscribers (snd (notify_entries e u es w)) = taskUpdateSubscribers w \<and>
   uuid_calls (snd (notify_entries e u es w)) = uuid_calls w \<and>
   emitted (snd (notify_entries e u es w)) = emitted w"
proof (induction es arbitrary: w)
  case Nil
  then show ?case by simp
next
  case (Cons en es)
  obtain key subscribers where en: "en = (key, subscribers)" by (cases en)
  obtain r w1 where fe: "forEach e u subscribers w = (r, w1)"
    by (cases "forEach e u subscribers w")
  have fr: "tasks w1 = tasks w \<and> taskUpdateSubscribers w1 = taskUpdateSubscribers w \<and>
    uuid_calls w1 = uuid_calls w \<and> emitted w1 = emitted w"
    using forEach_frame [of e u subscribers w] fe by simp
  show ?case
  proof (cases "key_matches key (id_of (task_u u))")
    case False
    with en Cons.IH [of w] show ?thesis by simp
  next
    case True
    show ?thesis
    proof (cases r)
      case None
      with True en fe fr Cons.IH [of w1] show ?thesis by simp
    next
      case (Some x)
      with True en fe fr show ?thesis by simp
    qed
  qed
qed

lemma notifyTaskUpdate_frame:
  "tasks (snd (notifyTaskUpdate e k ty t w)) = tasks w"
  "taskUpdateSubscribers (snd (notifyTaskUpdate e k ty t w)) = taskUpdateSubscribers w"
  "uuid_calls (snd (notifyTaskUpdate e k ty t w)) = uuid_calls w"
  "emitted (snd (notifyTaskUpdate e k ty t w)) = emitted w"
  by (simp_all add: notifyTaskUpdate_def notify_entries_frame)

text \<open>When no registered callback throws, the broadcast returns normally.\<close>

lemma notify_quiet_aux_forEach:
  assumes "\<forall>cb\<in>set cbs. \<not> may_throw e cb"
  shows "fst (forEach e u cbs w) = None"
  using assms
proof (induction cbs arbitrary: w)
  case Nil
  then show ?case by simp
next
  case (Cons cb cbs)
  then have nt: "\<not> may_throw e cb" and rest: "\<forall>cb\<in>set cbs. \<not> may_throw e cb" by simp_all
  from nt have "fst (invoke e cb u w) = None"
    by (cases cb) (simp_all add: may_throw_def)
  then obtain w1 where "invoke e cb u w = (None, w1)" by (cases "invoke e cb u w") simp
  with Cons.IH [OF rest, of w1] show ?case by simp
qed

lemma notify_entries_quiet:
  assumes "\<forall>en\<in>set es. \<forall>cb\<in>set (snd en). \<not> may_throw e cb"
  shows "fst (notify_entries e u es w) = None"
  using assms
proof (induction es arbitrary: w)
  case Nil
  then show ?case by simp
next
  case (Cons en es)
  obtain key subscribers where en: "en = (key, subscribers)" by (cases en)
  from Cons.prems en have here: "\<forall>cb\<in>set subscribers. \<not> may_throw e cb"
    and rest: "\<forall>en\<in>set es. \<forall>cb\<in>set (snd en). \<not> may_throw e cb" by simp_all
  from notify_quiet_aux_forEach [OF here] obtain w1 where
    "forEach e u subscribers w = (None, w1)"
    by (cases "forEach e u subscribers w") (metis fst_conv)
  with en Cons.IH [OF rest] show ?case by simp
qed

lemma notifyTaskUpdate_quiet:
  assumes "\<forall>en\<in>set (taskUpdateSubscribers w). \<forall>cb\<in>set (snd en). \<not> may_throw e cb"
  shows "fst (notifyTaskUpdate e k ty t w) = None"
  using notify_entries_quiet [OF assms] by (simp add: notifyTaskUpdate_def)

section \<open>When a broadcast throws\<close>

text \<open>
  A broadcast throws exactly when a callback under a matching key throws, and what it
  throws is the error of a listener.
\<close>

lemma invoke_None_iff: "fst (invoke e cb u w) = None \<longleftrightarrow> \<not> may_throw e cb"
  by (cases cb) (simp_all add: may_throw_def)

lemma invoke_Some:
  "fst (invoke e cb u w) = Some x \<Longrightarrow> \<exists>n. x = ListenerError n \<and> listener_throws e n"
  by (cases cb) (auto split: if_splits)

lemma forEach_None_iff:
  "fst (forEach e u cbs w) = None \<longleftrightarrow> (\<forall>cb\<in>set cbs. \<not> may_throw e cb)"
proof (induction cbs arbitrary: w)
  case Nil
  then show ?case by simp
next
  case (Cons cb cbs)
  obtain r w1 where inv: "invoke e cb u w = (r, w1)" by (cases "invoke e cb u w")
  have r: "r = None \<longleftrightarrow> \<not> may_throw e cb"
    using invoke_None_iff [of e cb u w] inv by simp
  show ?case
  proof (cases r)
    case None
    with inv r Cons.IH [of w1] show ?thesis by simp
  next
    case (Some x)
    with inv r show ?thesis by simp
  qed
qed

lemma forEach_Some:
  "fst (forEach e u cbs w) = Some x \<Longrightarrow> \<exists>n. x = ListenerError n \<and> listener_throws e n"
proof (induction cbs arbitrary: w)
  case Nil
  then show ?case by simp
next
  case (Cons cb cbs)
  obtain r w1 where inv: "invoke e cb u w = (r, w1)" by (cases "invoke e cb u w")
  show ?case
  proof (cases r)
    case None
    with inv Cons.prems Cons.IH [of w1] show ?thesis by simp
  next
    case (Some y)
    with inv Cons.prems have "fst (invoke e cb u w) = Some x" by simp
    then show ?thesis by (rule invoke_Some)
  qed
qed

lemma notify_entries_None_iff:
  "fst (notify_entries e u es w) = None \<longleftrightarrow>
     (\<forall>en\<in>set es. key_matches (fst en) (id_of (task_u u)) \<longrightarrow>
        (\<forall>cb\<in>set (snd en). \<not> may_throw e cb))"
proof (induction es arbitrary: w)
  case Nil
  then show ?case by simp
next
  case (Cons en es)
  obtain key subscribers where en: "en = (key, subscribers)" by (cases en)
  show ?case
  proof (cases "key_matches key (id_of (task_u u))")
    case False
    with en Cons.IH [of w] show ?thesis by simp
  next
    case True
    obtain r w1 where fe: "forEach e u subscribers w = (r, w1)"
      by (cases "forEach e u subscribers w")
    have r: "r = None \<longleftrightarrow> (\<forall>cb\<in>set subscribers. \<not> may_throw e cb)"
      using forEach_None_iff [of e u subscribers w] fe by simp
    show ?thesis
    proof (cases r)
      case None
      with True en fe r Cons.IH [of w1] show ?thesis by simp
    next
      case (Some x)
      with True en fe r show ?thesis by simp
    qed
  qed
qed

lemma notify_entries_Some:
  "fst (notify_entries e u es w) = Some x \<Longrightarrow> \<exists>n. x = ListenerError n \<and> listener_throws e n"
proof (induction es arbitrary: w)
  case Nil
  then show ?case by simp
next
  case (Cons en es)
  obtain key subscribers where en: "en = (key, subscribers)" by (cases en)
  show ?case
  proof (cases "key_matches key (id_of (task_u u))")
    case False
    with en Cons.prems Cons.IH [of w] show ?thesis by simp
  next
    case True
    obtain r w1 where fe: "forEach e u subscribers w = (r, w1)"
      by (cases "forEach e u subscribers w")
    show ?thesis
    proof (cases r)
      case None
      with True en fe Cons.prems Cons.IH [of w1] show ?thesis by simp
    next
      case (Some y)
      with True en fe Cons.prems have "fst (forEach e u subscribers w) = Some x" by simp
      then show ?thesis by (rule forEach_Some)
    qed
  qed
qed

lemma key_matches_general: "CHR '':'' \<notin> set key \<Longrightarrow> key_matches key tid"
  by (simp add: key_matches_def)

section \<open>The sample values, evaluated\<close>

lemma demo_env_fields:
  "uuidv4 demo_env n = ''task-'' @ replicate n (CHR ''i'')"
  "clock demo_env k = 1700000000000 + int k"
  "write_throws demo_env c = (c = 1)"
  "listener_throws demo_env n = (n = 9)"
  by (simp_all add: demo_env_def)

lemma demo_authenticated:
  "authenticateCall demo_env [''Bearer good''] = Some \<lparr>user_id = ''u1'', username = ''admin''\<rparr>"
  by (simp add: authenticateCall_def extractTokenFromMetadata_def verifyToken_def demo_env_def)

section \<open>Unauthenticated calls\<close>

lemma authenticateCall_absent: "authenticateCall e [] = None"
  by (simp add: authenticateCall_def extractTokenFromMetadata_def)

lemma authenticateCall_unverified:
  "jwt_verify e (the (extractTokenFromMetadata (token # rest))) = None \<Longrightarrow>
   authenticateCall e (token # rest) = None"
  by (cases "take 7 token = ''Bearer ''")
     (simp_all add: authenticateCall_def extractTokenFromMetadata_def verifyToken_def)

text \<open>
  C5. A \<^verbatim>\<open>CreateTask\<close> call whose credential is absent (no \<^verbatim>\<open>authorization\<close>
  value) or does not verify (\<^verbatim>\<open>jwt.verify\<close> throws on the extracted token) is answered
  with \<open>UNAUTHENTICATED\<close>, and the whole state is the one before the call: the task map
  and so the total count, the number of identifiers drawn from \<^verbatim>\<open>uuidv4\<close>, and the
  updates delivered to subscribers.
\<close>

theorem CreateTask_unauthenticated:
  assumes "metadata = [] \<or>
           jwt_verify e (the (extractTokenFromMetadata metadata)) = None"
  shows "CreateTask e metadata request w = (Inl UNAUTHENTICATED, w)"
proof -
  have "authenticateCall e metadata = None"
  proof (cases metadata)
    case Nil
    then show ?thesis by (simp add: authenticateCall_absent)
  next
    case (Cons token rest)
    with assms show ?thesis by (simp add: authenticateCall_unverified)
  qed
  then show ?thesis by (simp add: CreateTask_def)
qed

theorem CreateTask_unauthenticated_witness:
  "jwt_verify demo_env (the (extractTokenFromMetadata [''Bearer bad''])) = None \<and>
   CreateTask demo_env [''Bearer bad''] demo_create empty_world
     = (Inl UNAUTHENTICATED, empty_world)"
proof -
  have h: "jwt_verify demo_env (the (extractTokenFromMetadata [''Bearer bad''])) = None"
    by (simp add: demo_env_def extractTokenFromMetadata_def)
  then have "[''Bearer bad''] = [] \<or>
     jwt_verify demo_env (the (extractTokenFromMetadata [''Bearer bad''])) = None" by simp
  from CreateTask_unauthenticated [OF this] h show ?thesis by simp
qed

section \<open>Creation\<close>

lemma createTask_stored:
  assumes "createTask e data w = (r, w')"
  shows "map_of (tasks w') (uuidv4 e (uuid_calls w)) =
         Some \<lparr>id_of = uuidv4 e (uuid_calls w),
               title = d_title data, description = d_description data,
               status = d_status data, priority = d_priority data,
               assignee_id = d_assignee_id data,
               created_at = clock e 0, updated_at = clock e 1,
               due_date = d_due_date data, tags = d_tags data\<rparr>"
    and "\<And>t. r = Inr t \<Longrightarrow> t = \<lparr>id_of = uuidv4 e (uuid_calls w),
               title = d_title data, description = d_description data,
               status = d_status data, priority = d_priority data,
               assignee_id = d_assignee_id data,
               created_at = clock e 0, updated_at = clock e 1,
               due_date = d_due_date data, tags = d_tags data\<rparr>"
proof -
  let ?t = "\<lparr>id_of = uuidv4 e (uuid_calls w),
               title = d_title data, description = d_description data,
               status = d_status data, priority = d_priority data,
               assignee_id = d_assignee_id data,
               created_at = clock e 0, updated_at = clock e 1,
               due_date = d_due_date data, tags = d_tags data\<rparr>"
  let ?w1 = "w\<lparr>uuid_calls := Suc (uuid_calls w), tasks := map_set (id_of ?t) ?t (tasks w)\<rparr>"
  obtain x w2 where n: "notifyTaskUpdate e 2 CREATED ?t ?w1 = (x, w2)"
    by (cases "notifyTaskUpdate e 2 CREATED ?t ?w1")
  have w': "w' = w2" and r: "r = (case x of Some y \<Rightarrow> Inl y | None \<Rightarrow> Inr ?t)"
    using assms n by (auto simp: createTask_def Let_def split: option.splits)
  have "tasks w2 = tasks ?w1"
    using notifyTaskUpdate_frame(1) [of e 2 CREATED ?t ?w1] n by simp
  then show "map_of (tasks w') (uuidv4 e (uuid_calls w)) = Some ?t"
    using w' by (simp add: map_of_map_set)
  show "\<And>t. r = Inr t \<Longrightarrow> t = ?t"
    using r by (auto split: option.splits)
qed

text \<open>
  C10. Every \<^verbatim>\<open>CreateTask\<close> call that succeeds (answers with a task) stores and
  returns a record whose status is \<open>PENDING\<close>, whatever the request holds (the request
  has no status field), whose priority is the requested one, or \<open>MEDIUM\<close> when the
  request has none, and whose tags are the requested ones, or the empty list when the
  request has none.
\<close>

theorem CreateTask_initial_fields:
  assumes "CreateTask e metadata request w = (Inr t, w')"
  shows "status t = PENDING \<and>
         priority t = (case c_priority request of Some p \<Rightarrow> p | None \<Rightarrow> MEDIUM) \<and>
         tags t = (case c_tags request of Some ts \<Rightarrow> ts | None \<Rightarrow> []) \<and>
         getTask (id_of t) w' = Some t"
proof -
  from assms obtain user where auth: "authenticateCall e metadata = Some user"
    by (auto simp: CreateTask_def split: option.splits)
  from assms auth have valid: "\<not> (falsy (c_title request) \<or> falsy (c_description request))"
    by (auto simp: CreateTask_def split: if_splits)
  let ?data = "\<lparr>d_title = the (c_title request),
                    d_description = the (c_description request),
                    d_status = PENDING,
                    d_priority = (case c_priority request of Some p \<Rightarrow> p | None \<Rightarrow> MEDIUM),
                    d_assignee_id = (if falsy (c_assignee_id request) then user_id user
                                     else the (c_assignee_id request)),
                    d_due_date = c_due_date request,
                    d_tags = (case c_tags request of Some ts \<Rightarrow> ts | None \<Rightarrow> [])\<rparr>"
  obtain r w1 where ct: "createTask e ?data w = (r, w1)" by (cases "createTask e ?data w")
  from assms auth valid ct have r: "r = Inr t" and w1: "w1 = w'"
    by (auto simp: CreateTask_def split: sum.splits)
  from createTask_stored(2) [OF ct r] have t: "t = \<lparr>id_of = uuidv4 e (uuid_calls w),
               title = d_title ?data, description = d_description ?data,
               status = d_status ?data, priority = d_priority ?data,
               assignee_id = d_assignee_id ?data,
               created_at = clock e 0, updated_at = clock e 1,
               due_date = d_due_date ?data, tags = d_tags ?data\<rparr>" .
  have "map_of (tasks w') (uuidv4 e (uuid_calls w)) = Some t"
    using createTask_stored(1) [OF ct] w1 t by simp
  moreover have "id_of t = uuidv4 e (uuid_calls w)" using t by simp
  ultimately have "getTask (id_of t) w' = Some t" by (simp add: getTask_def)
  then show ?thesis using t by simp
qed

theorem CreateTask_initial_fields_witness:
  "\<exists>t w'. CreateTask demo_env [''Bearer good''] demo_create empty_world = (Inr t, w') \<and>
     status t = PENDING \<and> priority t = MEDIUM \<and> tags t = [] \<and> getTask (id_of t) w' = Some t"
proof -
  have "\<exists>t w'. CreateTask demo_env [''Bearer good''] demo_create empty_world = (Inr t, w')"
    by (simp add: CreateTask_def demo_authenticated demo_create_def falsy_def createTask_def
        notifyTaskUpdate_def empty_world_def Let_def)
  then obtain t w' where
    h: "CreateTask demo_env [''Bearer good''] demo_create empty_world = (Inr t, w')" by blast
  from CreateTask_initial_fields [OF h] have
    "status t = PENDING \<and> priority t = MEDIUM \<and> tags t = [] \<and> getTask (id_of t) w' = Some t"
    by (simp add: demo_create_def)
  with h show ?thesis by blast
qed

section \<open>Update\<close>

lemma updateTask_stores:
  assumes "map_of (tasks w) i = Some t"
  shows "getTask i (snd (updateTask e i updates w)) = Some (merge_task t updates (clock e 0))"
proof -
  let ?m = "merge_task t updates (clock e 0)"
  let ?w1 = "w\<lparr>tasks := map_set i ?m (tasks w)\<rparr>"
  obtain x w2 where n: "notifyTaskUpdate e 1 UPDATED ?m ?w1 = (x, w2)"
    by (cases "notifyTaskUpdate e 1 UPDATED ?m ?w1")
  have "tasks w2 = tasks ?w1"
    using notifyTaskUpdate_frame(1) [of e 1 UPDATED ?m ?w1] n by simp
  moreover have "snd (updateTask e i updates w) = w2"
    using assms n by (simp add: updateTask_def Let_def split: option.splits)
  ultimately show ?thesis by (simp add: getTask_def map_of_map_set)
qed

lemma updateTask_returns:
  assumes "map_of (tasks w) i = Some t"
    and "\<forall>en\<in>set (taskUpdateSubscribers w). \<forall>cb\<in>set (snd en). \<not> may_throw e cb"
  shows "fst (updateTask e i updates w) = Inr (Some (merge_task t updates (clock e 0)))"
proof -
  let ?m = "merge_task t updates (clock e 0)"
  let ?w1 = "w\<lparr>tasks := map_set i ?m (tasks w)\<rparr>"
  have "\<forall>en\<in>set (taskUpdateSubscribers ?w1). \<forall>cb\<in>set (snd en). \<not> may_throw e cb"
    using assms(2) by simp
  from notifyTaskUpdate_quiet [OF this] obtain w2 where
    "notifyTaskUpdate e 1 UPDATED ?m ?w1 = (None, w2)"
    by (cases "notifyTaskUpdate e 1 UPDATED ?m ?w1") (metis fst_conv)
  with assms(1) show ?thesis by (simp add: updateTask_def Let_def)
qed

lemma updateTask_fst:
  assumes "map_of (tasks w) i = Some t"
  shows "fst (updateTask e i updates w) =
     (case fst (notify_entries e
                  \<lparr>type_u = UPDATED, task_u = merge_task t updates (clock e 0),
                   timestamp_u = clock e 1\<rparr>
                  (taskUpdateSubscribers w)
                  (w\<lparr>tasks := map_set i (merge_task t updates (clock e 0)) (tasks w)\<rparr>)) of
        None \<Rightarrow> Inr (Some (merge_task t updates (clock e 0)))
      | Some x \<Rightarrow> Inl x)"
  using assms
  by (simp add: updateTask_def notifyTaskUpdate_def Let_def split: prod.splits option.splits)

text \<open>
  C4. For a task present in the store and any partial update, \<^verbatim>\<open>updateTask\<close> builds
  one merged record. The store holds that record under the identifier afterwards, in
  every case. Whenever \<^verbatim>\<open>updateTask\<close> returns, that record is what it returns; it
  returns exactly when no callback registered under a key that matches the task throws,
  and otherwise it throws the error of a listener (after storing). In the merged record
  every field absent from the partial update has its value from before the update and
  every field present has the value given; the identifier and the creation timestamp are
  those of the old record in all cases; the modification timestamp is the clock reading
  taken by the update.
\<close>

theorem updateTask_partial_merge:
  assumes present: "getTask i w = Some t"
  shows "\<exists>m. getTask i (snd (updateTask e i updates w)) = Some m \<and>
           (\<forall>r. fst (updateTask e i updates w) = Inr r \<longrightarrow> r = Some m) \<and>
           (\<forall>x. fst (updateTask e i updates w) = Inl x \<longrightarrow>
                 (\<exists>n. x = ListenerError n \<and> listener_throws e n)) \<and>
           ((fst (updateTask e i updates w) = Inr (Some m)) =
              (\<forall>en\<in>set (taskUpdateSubscribers w). key_matches (fst en) (id_of t) \<longrightarrow>
                 (\<forall>cb\<in>set (snd en). \<not> may_throw e cb))) \<and>
           id_of m = id_of t \<and> created_at m = created_at t \<and> updated_at m = clock e 0 \<and>
           title m = (case p_title updates of None \<Rightarrow> title t | Some v \<Rightarrow> v) \<and>
           description m = (case p_description updates of None \<Rightarrow> description t | Some v \<Rightarrow> v) \<and>
           status m = (case p_status updates of None \<Rightarrow> status t | Some v \<Rightarrow> v) \<and>
           priority m = (case p_priority updates of None \<Rightarrow> priority t | Some v \<Rightarrow> v) \<and>
           assignee_id m = (case p_assignee_id updates of None \<Rightarrow> assignee_id t | Some v \<Rightarrow> v) \<and>
           due_date m = (case p_due_date updates of None \<Rightarrow> due_date t | Some v \<Rightarrow> Some v) \<and>
           tags m = (case p_tags updates of None \<Rightarrow> tags t | Some v \<Rightarrow> v)"
proof -
  from present have p: "map_of (tasks w) i = Some t" by (simp add: getTask_def)
  let ?m = "merge_task t updates (clock e 0)"
  let ?u = "\<lparr>type_u = UPDATED, task_u = ?m, timestamp_u = clock e 1\<rparr>"
  let ?w1 = "w\<lparr>tasks := map_set i ?m (tasks w)\<rparr>"
  let ?n = "fst (notify_entries e ?u (taskUpdateSubscribers w) ?w1)"
  let ?U = "fst (updateTask e i updates w)"
  have U: "?U = (case ?n of None \<Rightarrow> Inr (Some ?m) | Some x \<Rightarrow> Inl x)"
    by (rule updateTask_fst [OF p])
  have idm: "id_of ?m = id_of t" by (simp add: merge_task_def)
  have stored: "getTask i (snd (updateTask e i updates w)) = Some ?m"
    by (rule updateTask_stores [OF p])
  have ret: "\<forall>r. ?U = Inr r \<longrightarrow> r = Some ?m"
    using U by (auto split: option.splits)
  have thr: "\<forall>x. ?U = Inl x \<longrightarrow> (\<exists>n. x = ListenerError n \<and> listener_throws e n)"
  proof (intro allI impI)
    fix x assume "?U = Inl x"
    with U have "?n = Some x" by (auto split: option.splits)
    then show "\<exists>n. x = ListenerError n \<and> listener_throws e n" by (rule notify_entries_Some)
  qed
  have "(?U = Inr (Some ?m)) = (?n = None)"
    using U by (auto split: option.splits)
  also have "\<dots> = (\<forall>en\<in>set (taskUpdateSubscribers w). key_matches (fst en) (id_of t) \<longrightarrow>
                 (\<forall>cb\<in>set (snd en). \<not> may_throw e cb))"
    using notify_entries_None_iff [of e ?u "taskUpdateSubscribers w" ?w1] idm by simp
  finally have iff: "(?U = Inr (Some ?m)) =
      (\<forall>en\<in>set (taskUpdateSubscribers w). key_matches (fst en) (id_of t) \<longrightarrow>
                 (\<forall>cb\<in>set (snd en). \<not> may_throw e cb))" .
  have fields: "id_of ?m = id_of t \<and> created_at ?m = created_at t \<and> updated_at ?m = clock e 0 \<and>
    title ?m = (case p_title updates of None \<Rightarrow> title t | Some v \<Rightarrow> v) \<and>
    description ?m = (case p_description updates of None \<Rightarrow> description t | Some v \<Rightarrow> v) \<and>
    status ?m = (case p_status updates of None \<Rightarrow> status t | Some v \<Rightarrow> v) \<and>
    priority ?m = (case p_priority updates of None \<Rightarrow> priority t | Some v \<Rightarrow> v) \<and>
    assignee_id ?m = (case p_assignee_id updates of None \<Rightarrow> assignee_id t | Some v \<Rightarrow> v) \<and>
    due_date ?m = (case p_due_date updates of None \<Rightarrow> due_date t | Some v \<Rightarrow> Some v) \<and>
    tags ?m = (case p_tags updates of None \<Rightarrow> tags t | Some v \<Rightarrow> v)"
    by (simp add: merge_task_def)
  from stored ret thr iff fields show ?thesis by blast
qed

theorem updateTask_partial_merge_witness:
  "getTask ''a'' listener_aside = Some task_a \<and>
   (\<exists>m. fst (updateTask demo_env ''a'' demo_patch listener_aside) = Inr (Some m) \<and>
        getTask ''a'' (snd (updateTask demo_env ''a'' demo_patch listener_aside)) = Some m \<and>
        id_of m = ''a'' \<and> created_at m = 1000 \<and> updated_at m = 1700000000000 \<and>
        title m = ''A'' \<and> description m = ''first'' \<and> status m = IN_PROGRESS \<and>
        priority m = HIGH \<and> assignee_id m = ''u1'' \<and> due_date m = None \<and> tags m = [''x'']) \<and>
   (\<exists>m. fst (updateTask demo_env ''a'' demo_patch listener_first) = Inl (ListenerError 9) \<and>
        getTask ''a'' (snd (updateTask demo_env ''a'' demo_patch listener_first)) = Some m \<and>
        title m = ''A'' \<and> status m = IN_PROGRESS)"
proof -
  have present: "getTask ''a'' listener_aside = Some task_a"
    by (simp add: getTask_def listener_aside_def demo_store_def empty_world_def)
  have present': "getTask ''a'' listener_first = Some task_a"
    by (simp add: getTask_def listener_first_def demo_store_def empty_world_def)
  have aside: "\<forall>en\<in>set (taskUpdateSubscribers listener_aside).
      key_matches (fst en) (id_of task_a) \<longrightarrow> (\<forall>cb\<in>set (snd en). \<not> may_throw demo_env cb)"
    by (simp add: listener_aside_def may_throw_def key_matches_def task_a_def)
  have first: "\<not> (\<forall>en\<in>set (taskUpdateSubscribers listener_first).
      key_matches (fst en) (id_of task_a) \<longrightarrow> (\<forall>cb\<in>set (snd en). \<not> may_throw demo_env cb))"
    by (simp add: listener_first_def may_throw_def key_matches_def task_a_def demo_env_fields)
  have thrown: "fst (updateTask demo_env ''a'' demo_patch listener_first) = Inl (ListenerError 9)"
    by (simp add: updateTask_def notifyTaskUpdate_def listener_first_def demo_store_def
        empty_world_def key_matches_general demo_env_fields Let_def)
  from updateTask_partial_merge [OF present, of demo_env demo_patch] aside present
  have one: "\<exists>m. fst (updateTask demo_env ''a'' demo_patch listener_aside) = Inr (Some m) \<and>
        getTask ''a'' (snd (updateTask demo_env ''a'' demo_patch listener_aside)) = Some m \<and>
        id_of m = ''a'' \<and> created_at m = 1000 \<and> updated_at m = 1700000000000 \<and>
        title m = ''A'' \<and> description m = ''first'' \<and> status m = IN_PROGRESS \<and>
        priority m = HIGH \<and> assignee_id m = ''u1'' \<and> due_date m = None \<and> tags m = [''x'']"
    by (auto simp: demo_patch_def task_a_def demo_env_fields)
  from updateTask_partial_merge [OF present', of demo_env demo_patch] thrown
  have two: "\<exists>m. fst (updateTask demo_env ''a'' demo_patch listener_first) = Inl (ListenerError 9) \<and>
        getTask ''a'' (snd (updateTask demo_env ''a'' demo_patch listener_first)) = Some m \<and>
        title m = ''A'' \<and> status m = IN_PROGRESS"
    by (auto simp: demo_patch_def task_a_def)
  from present one two show ?thesis by blast
qed

text \<open>
  The handler \<^verbatim>\<open>UpdateTask\<close> passes on exactly the fields of the request that are not
  \<^verbatim>\<open>undefined\<close>, and answers with the merged record.
\<close>

lemma UpdateTask_returns_merge:
  assumes auth: "authenticateCall e metadata = Some user"
    and present: "getTask (u_id request) w = Some t"
    and quiet: "\<forall>en\<in>set (taskUpdateSubscribers w). \<forall>cb\<in>set (snd en). \<not> may_throw e cb"
  shows "fst (UpdateTask e metadata request w) =
           Inr (merge_task t
                  \<lparr>p_title = u_title request, p_description = u_description request,
                   p_status = u_status request, p_priority = u_priority request,
                   p_assignee_id = u_assignee_id request, p_updated_at = None,
                   p_due_date = u_due_date request, p_tags = u_tags request\<rparr> (clock e 0))"
proof -
  let ?updates = "\<lparr>p_title = u_title request, p_description = u_description request,
                   p_status = u_status request, p_priority = u_priority request,
                   p_assignee_id = u_assignee_id request, p_updated_at = None,
                   p_due_date = u_due_date request, p_tags = u_tags request\<rparr>"
  from present have p: "map_of (tasks w) (u_id request) = Some t" by (simp add: getTask_def)
  from updateTask_returns [OF p quiet, of ?updates]
  obtain w1 where "updateTask e (u_id request) ?updates w
      = (Inr (Some (merge_task t ?updates (clock e 0))), w1)"
    by (cases "updateTask e (u_id request) ?updates w") simp
  with auth present show ?thesis by (simp add: UpdateTask_def Let_def)
qed

section \<open>Opening a subscription\<close>

lemma subscribeToTaskUpdates_registers:
  "\<exists>cbs. map_of (taskUpdateSubscribers (snd (subscribeToTaskUpdates userId cb taskIds w)))
            (subscription_key userId taskIds) = Some cbs \<and> cb \<in> set cbs"
  by (simp add: subscribeToTaskUpdates_def Let_def map_of_map_set set_add_def)

lemma subscribeToTaskUpdates_frame:
  "tasks (snd (subscribeToTaskUpdates userId cb taskIds w)) = tasks w"
  "delivered (snd (subscribeToTaskUpdates userId cb taskIds w)) = delivered w"
  "uuid_calls (snd (subscribeToTaskUpdates userId cb taskIds w)) = uuid_calls w"
  "fst (subscribeToTaskUpdates userId cb taskIds w) = (subscription_key userId taskIds, cb)"
  by (simp_all add: subscribeToTaskUpdates_def Let_def)

lemma unsubscribe_map_of:
  "map_of (taskUpdateSubscribers (unsubscribe h w)) k =
     (if k = fst h
      then (case map_of (taskUpdateSubscribers w) k of
              None \<Rightarrow> None
            | Some cbs \<Rightarrow> (if removeAll (snd h) cbs = [] then None
                           else Some (removeAll (snd h) cbs)))
      else map_of (taskUpdateSubscribers w) k)"
  by (simp add: unsubscribe_def Let_def map_of_map_set map_of_map_delete split: option.splits)

lemma unsubscribe_subscribers_of:
  "subscribers_of k (unsubscribe h w) =
     (if k = fst h then removeAll (snd h) (subscribers_of k w) else subscribers_of k w)"
  by (simp add: subscribers_of_def unsubscribe_map_of split: option.splits)

lemma unsubscribe_frame:
  "tasks (unsubscribe h w) = tasks w"
  "delivered (unsubscribe h w) = delivered w"
  "uuid_calls (unsubscribe h w) = uuid_calls w"
  "emitted (unsubscribe h w) = emitted w"
  "write_errors (unsubscribe h w) = write_errors w"
  by (simp_all add: unsubscribe_def Let_def split: option.splits)

lemma subscribeToTaskUpdates_subscribers_of:
  "subscribers_of k (snd (subscribeToTaskUpdates userId cb taskIds w)) =
     (if k = subscription_key userId taskIds
      then set_add cb (subscribers_of k w) else subscribers_of k w)"
  by (simp add: subscribers_of_def subscribeToTaskUpdates_def Let_def map_of_map_set
      split: option.splits)

text \<open>
  C1, as the code has it. For every store state and every authenticated subscriber,
  \<^verbatim>\<open>SubscribeTaskUpdates\<close> registers the session's sink under the subscriber's key
  and then writes one message: the connection confirmation, a \<open>CREATED\<close> update for a
  made-up task with identifier \<^verbatim>\<open>connection\<close>, status \<open>COMPLETED\<close>, priority
  \<open>LOW\<close>, the caller as assignee and the tag \<^verbatim>\<open>system\<close>. When the write succeeds,
  that message is all the subscriber is sent and the sink stays registered. When the
  write throws, the subscriber is sent nothing, \<open>INTERNAL\<close> is emitted on the stream and
  the sink is unregistered again. In both cases the message does not depend on the
  store, the store is left as it was, and no stored record is sent.
\<close>

theorem SubscribeTaskUpdates_connection_event:
  assumes auth: "authenticateCall e metadata = Some user"
  shows "delivered (SubscribeTaskUpdates e c metadata request w)
           = delivered w @
             (if write_throws e c then []
              else [(SessionSink c,
                     \<lparr>type_u = CREATED,
                      task_u = \<lparr>id_of = ''connection'',
                                title = ''Streaming connection established'',
                                description = ''You are now subscribed to task updates'',
                                status = COMPLETED, priority = LOW,
                                assignee_id = user_id user,
                                created_at = clock e 0, updated_at = clock e 1,
                                due_date = None, tags = [''system'']\<rparr>,
                      timestamp_u = clock e 2\<rparr>)]) \<and>
         emitted (SubscribeTaskUpdates e c metadata request w)
           = emitted w @ (if write_throws e c then [(c, INTERNAL)] else []) \<and>
         tasks (SubscribeTaskUpdates e c metadata request w) = tasks w \<and>
         uuid_calls (SubscribeTaskUpdates e c metadata request w) = uuid_calls w \<and>
         (SessionSink c \<in> set (subscribers_of (subscription_key (user_id user) (s_task_ids request))
                                 (SubscribeTaskUpdates e c metadata request w)))
           = (\<not> write_throws e c)"
proof -
  let ?key = "subscription_key (user_id user) (s_task_ids request)"
  let ?s = "subscribeToTaskUpdates (user_id user) (SessionSink c) (s_task_ids request) w"
  have h: "fst ?s = (?key, SessionSink c)" by (simp add: subscribeToTaskUpdates_frame)
  have em: "emitted (snd ?s) = emitted w" by (simp add: subscribeToTaskUpdates_def Let_def)
  show ?thesis
  proof (cases "write_throws e c")
    case True
    then have S: "SubscribeTaskUpdates e c metadata request w
        = unsubscribe (?key, SessionSink c) ((snd ?s)\<lparr>emitted := emitted (snd ?s) @ [(c, INTERNAL)]\<rparr>)"
      using auth h by (auto simp: SubscribeTaskUpdates_def split: prod.splits)
    show ?thesis
      by (simp add: S True unsubscribe_frame unsubscribe_subscribers_of
          subscribeToTaskUpdates_frame em)
  next
    case False
    then have S: "SubscribeTaskUpdates e c metadata request w
        = (snd ?s)\<lparr>delivered := delivered (snd ?s) @ [(SessionSink c, connection_update e user)]\<rparr>"
      using auth by (simp add: SubscribeTaskUpdates_def split: prod.splits)
    have "subscribers_of ?key ((snd ?s)\<lparr>delivered := d\<rparr>) = subscribers_of ?key (snd ?s)" for d
      by (simp add: subscribers_of_def)
    then show ?thesis
      by (simp add: S False subscribeToTaskUpdates_frame em connection_update_def
          subscribeToTaskUpdates_subscribers_of set_add_def)
  qed
qed

theorem SubscribeTaskUpdates_connection_event_witness:
  "map (\<lambda>d. (fst d, id_of (task_u (snd d)), tags (task_u (snd d))))
     (delivered (SubscribeTaskUpdates demo_env 2 [''Bearer good'']
        \<lparr>s_user_id = ''u1'', s_task_ids = None\<rparr> demo_store))
     = [(SessionSink 2, ''connection'', [''system''])] \<and>
   delivered (SubscribeTaskUpdates demo_env 1 [''Bearer good'']
        \<lparr>s_user_id = ''u1'', s_task_ids = None\<rparr> demo_store) = [] \<and>
   emitted (SubscribeTaskUpdates demo_env 1 [''Bearer good'']
        \<lparr>s_user_id = ''u1'', s_task_ids = None\<rparr> demo_store) = [(1, INTERNAL)] \<and>
   SessionSink 1 \<notin> set (subscribers_of ''u1'' (SubscribeTaskUpdates demo_env 1 [''Bearer good'']
        \<lparr>s_user_id = ''u1'', s_task_ids = None\<rparr> demo_store))"
  using SubscribeTaskUpdates_connection_event [OF demo_authenticated,
      of 2 "\<lparr>s_user_id = ''u1'', s_task_ids = None\<rparr>" demo_store]
    SubscribeTaskUpdates_connection_event [OF demo_authenticated,
      of 1 "\<lparr>s_user_id = ''u1'', s_task_ids = None\<rparr>" demo_store]
  by (simp add: demo_env_fields demo_store_def empty_world_def subscription_key_def)

text \<open>
  C1 as stated fails: with the two records \<^verbatim>\<open>b\<close> and \<^verbatim>\<open>a\<close> in the store and no
  identifier filter, the subscriber is sent one message, not two, and its task is none of
  the stored records.
\<close>

theorem seeding_burst_counterexample:
  "map fst (tasks demo_store) = [''b'', ''a''] \<and>
   map (\<lambda>d. (fst d, id_of (task_u (snd d))))
     (delivered (SubscribeTaskUpdates demo_env 2 [''Bearer good'']
        \<lparr>s_user_id = ''u1'', s_task_ids = None\<rparr> demo_store))
     = [(SessionSink 2, ''connection'')]"
  by (simp add: SubscribeTaskUpdates_def demo_authenticated subscribeToTaskUpdates_def
      subscription_key_def set_add_def demo_store_def empty_world_def connection_update_def
      demo_env_fields Let_def)

section \<open>A delivery that fails\<close>

lemma invoke_delivered:
  assumes "\<not> may_throw e cb"
  shows "invoke e cb u w =
           (None, if fails e cb
                  then w\<lparr>write_errors := write_errors w @ [case cb of SessionSink n \<Rightarrow> n | Listener n \<Rightarrow> n]\<rparr>
                  else w\<lparr>delivered := delivered w @ [(cb, u)]\<rparr>)"
  using assms by (cases cb) (simp_all add: may_throw_def fails_def)

lemma forEach_delivered:
  assumes "\<forall>cb\<in>set cbs. \<not> may_throw e cb"
  shows "delivered (snd (forEach e u cbs w))
           = delivered w @ map (\<lambda>cb. (cb, u)) (filter (\<lambda>cb. \<not> fails e cb) cbs)"
  using assms
proof (induction cbs arbitrary: w)
  case Nil
  then show ?case by simp
next
  case (Cons cb cbs)
  then have nt: "\<not> may_throw e cb" and rest: "\<forall>cb\<in>set cbs. \<not> may_throw e cb" by simp_all
  show ?case
    using invoke_delivered [OF nt, of u w] Cons.IH [OF rest] by simp
qed

lemma notify_entries_delivered:
  assumes "\<forall>en\<in>set es. \<forall>cb\<in>set (snd en). \<not> may_throw e cb"
  shows "delivered (snd (notify_entries e u es w))
           = delivered w @ map (\<lambda>cb. (cb, u))
               (filter (\<lambda>cb. \<not> fails e cb)
                  (concat (map snd (filter (\<lambda>en. key_matches (fst en) (id_of (task_u u))) es))))"
  using assms
proof (induction es arbitrary: w)
  case Nil
  then show ?case by simp
next
  case (Cons en es)
  obtain key subscribers where en: "en = (key, subscribers)" by (cases en)
  from Cons.prems en have here: "\<forall>cb\<in>set subscribers. \<not> may_throw e cb"
    and rest: "\<forall>en\<in>set es. \<forall>cb\<in>set (snd en). \<not> may_throw e cb" by simp_all
  show ?case
  proof (cases "key_matches key (id_of (task_u u))")
    case False
    with en Cons.IH [OF rest, of w] show ?thesis by simp
  next
    case True
    from notify_quiet_aux_forEach [OF here] obtain w1 where
      fe: "forEach e u subscribers w = (None, w1)"
      by (cases "forEach e u subscribers w") (metis fst_conv)
    have "delivered w1 = delivered w @ map (\<lambda>cb. (cb, u)) (filter (\<lambda>cb. \<not> fails e cb) subscribers)"
      using forEach_delivered [OF here, of u w] fe by simp
    with True en fe Cons.IH [OF rest, of w1] show ?thesis by simp
  qed
qed

text \<open>
  C2, as the code has it. In a broadcast to callbacks that do not throw (the session
  sinks catch a failing write themselves), a write that fails is local: the broadcast
  returns normally to the mutation, the registry is the same afterwards, so the failing
  subscription stays registered, the task map is untouched, and the event is delivered,
  in registry order, to every subscription under a matching key whose write does not
  fail.
\<close>

theorem broadcast_write_failure_is_local:
  assumes quiet: "\<forall>en\<in>set (taskUpdateSubscribers w). \<forall>cb\<in>set (snd en). \<not> may_throw e cb"
  shows "fst (notifyTaskUpdate e k ty t w) = None \<and>
         taskUpdateSubscribers (snd (notifyTaskUpdate e k ty t w)) = taskUpdateSubscribers w \<and>
         tasks (snd (notifyTaskUpdate e k ty t w)) = tasks w \<and>
         delivered (snd (notifyTaskUpdate e k ty t w))
           = delivered w @ map (\<lambda>cb. (cb, \<lparr>type_u = ty, task_u = t, timestamp_u = clock e k\<rparr>))
               (filter (\<lambda>cb. \<not> fails e cb)
                  (concat (map snd (filter (\<lambda>en. key_matches (fst en) (id_of t))
                     (taskUpdateSubscribers w)))))"
  using notifyTaskUpdate_quiet [OF quiet, of k ty t] notifyTaskUpdate_frame(1,2) [of e k ty t w]
    notify_entries_delivered [OF quiet, of "\<lparr>type_u = ty, task_u = t, timestamp_u = clock e k\<rparr>" w]
  by (simp add: notifyTaskUpdate_def)

theorem broadcast_write_failure_is_local_witness:
  "fails demo_env (SessionSink 1) \<and>
   fst (notifyTaskUpdate demo_env 0 DELETED task_a two_sinks) = None \<and>
   taskUpdateSubscribers (snd (notifyTaskUpdate demo_env 0 DELETED task_a two_sinks))
     = [(''u1'', [SessionSink 1]), (''u2'', [SessionSink 2])] \<and>
   map fst (delivered (snd (notifyTaskUpdate demo_env 0 DELETED task_a two_sinks)))
     = [SessionSink 2]"
proof -
  have quiet: "\<forall>en\<in>set (taskUpdateSubscribers two_sinks). \<forall>cb\<in>set (snd en).
      \<not> may_throw demo_env cb"
    by (simp add: two_sinks_def may_throw_def)
  from broadcast_write_failure_is_local [OF quiet, of 0 DELETED task_a]
  show ?thesis
    by (simp add: two_sinks_def demo_store_def empty_world_def fails_def demo_env_fields
        key_matches_general)
qed

text \<open>
  C2 as stated fails. With the write to stream 1 throwing, \<^verbatim>\<open>createTask\<close> returns the
  task and the sink of stream 1 is still registered afterwards. With a plain listener
  that throws registered first, \<^verbatim>\<open>createTask\<close> throws the listener's error, the
  listener is still registered, and the sink behind it is not called.
\<close>

theorem broadcast_removal_counterexample:
  "write_throws demo_env 1 \<and>
   fst (createTask demo_env demo_data two_sinks) = Inr
     \<lparr>id_of = ''task-'', title = ''C'', description = ''third'', status = PENDING,
      priority = MEDIUM, assignee_id = ''u1'', created_at = 1700000000000,
      updated_at = 1700000000001, due_date = None, tags = []\<rparr> \<and>
   taskUpdateSubscribers (snd (createTask demo_env demo_data two_sinks))
     = [(''u1'', [SessionSink 1]), (''u2'', [SessionSink 2])] \<and>
   listener_throws demo_env 9 \<and>
   fst (createTask demo_env demo_data listener_first) = Inl (ListenerError 9) \<and>
   taskUpdateSubscribers (snd (createTask demo_env demo_data listener_first))
     = [(''u1'', [Listener 9]), (''u2'', [SessionSink 2])] \<and>
   delivered (snd (createTask demo_env demo_data listener_first)) = []"
  by (simp add: createTask_def notifyTaskUpdate_def key_matches_general two_sinks_def
      listener_first_def demo_store_def empty_world_def demo_data_def demo_env_fields Let_def)

section \<open>Who a broadcast reaches\<close>

lemma invoke_received_other:
  "cb \<noteq> cb' \<Longrightarrow> received cb (snd (invoke e cb' u w)) = received cb w"
  by (cases cb') (simp_all add: received_def)

lemma forEach_received_other:
  "cb \<notin> set cbs \<Longrightarrow> received cb (snd (forEach e u cbs w)) = received cb w"
proof (induction cbs arbitrary: w)
  case Nil
  then show ?case by simp
next
  case (Cons cb' cbs)
  then have ne: "cb \<noteq> cb'" and rest: "cb \<notin> set cbs" by auto
  obtain r w1 where inv: "invoke e cb' u w = (r, w1)" by (cases "invoke e cb' u w")
  from invoke_received_other [OF ne, of e u w] inv have r1: "received cb w1 = received cb w"
    by simp
  show ?case
  proof (cases r)
    case None
    with inv r1 Cons.IH [OF rest, of w1] show ?thesis by simp
  next
    case (Some x)
    with inv r1 show ?thesis by simp
  qed
qed

lemma notify_entries_received_other:
  assumes "\<forall>en\<in>set es. cb \<in> set (snd en) \<longrightarrow> \<not> key_matches (fst en) (id_of (task_u u))"
  shows "received cb (snd (notify_entries e u es w)) = received cb w"
  using assms
proof (induction es arbitrary: w)
  case Nil
  then show ?case by simp
next
  case (Cons en es)
  obtain key subscribers where en: "en = (key, subscribers)" by (cases en)
  from Cons.prems have rest:
    "\<forall>en\<in>set es. cb \<in> set (snd en) \<longrightarrow> \<not> key_matches (fst en) (id_of (task_u u))" by simp
  show ?case
  proof (cases "key_matches key (id_of (task_u u))")
    case False
    with en Cons.IH [OF rest, of w] show ?thesis by simp
  next
    case True
    with Cons.prems en have "cb \<notin> set subscribers" by auto
    from forEach_received_other [OF this, of e u w]
    obtain r w1 where fe: "forEach e u subscribers w = (r, w1)"
      and r1: "received cb w1 = received cb w"
      by (cases "forEach e u subscribers w") simp
    show ?thesis
    proof (cases r)
      case None
      with True en fe r1 Cons.IH [OF rest, of w1] show ?thesis by simp
    next
      case (Some x)
      with True en fe r1 show ?thesis by simp
    qed
  qed
qed

lemma notifyTaskUpdate_received_other:
  assumes "\<forall>en\<in>set (taskUpdateSubscribers w). cb \<in> set (snd en) \<longrightarrow> \<not> key_matches (fst en) (id_of t)"
  shows "received cb (snd (notifyTaskUpdate e k ty t w)) = received cb w"
  using notify_entries_received_other [of "taskUpdateSubscribers w" cb
      "\<lparr>type_u = ty, task_u = t, timestamp_u = clock e k\<rparr>" e w] assms
  by (simp add: notifyTaskUpdate_def)

lemma createTask_snd:
  "snd (createTask e data w) =
     snd (notifyTaskUpdate e 2 CREATED
       \<lparr>id_of = uuidv4 e (uuid_calls w),
        title = d_title data, description = d_description data,
        status = d_status data, priority = d_priority data,
        assignee_id = d_assignee_id data,
        created_at = clock e 0, updated_at = clock e 1,
        due_date = d_due_date data, tags = d_tags data\<rparr>
       (w\<lparr>uuid_calls := Suc (uuid_calls w),
          tasks := map_set (uuidv4 e (uuid_calls w))
            \<lparr>id_of = uuidv4 e (uuid_calls w),
             title = d_title data, description = d_description data,
             status = d_status data, priority = d_priority data,
             assignee_id = d_assignee_id data,
             created_at = clock e 0, updated_at = clock e 1,
             due_date = d_due_date data, tags = d_tags data\<rparr> (tasks w)\<rparr>))"
  by (simp add: createTask_def Let_def split: prod.splits option.splits)

lemma updateTask_snd:
  "snd (updateTask e i updates w) =
     (case map_of (tasks w) i of
        None \<Rightarrow> w
      | Some t \<Rightarrow> snd (notifyTaskUpdate e 1 UPDATED (merge_task t updates (clock e 0))
                    (w\<lparr>tasks := map_set i (merge_task t updates (clock e 0)) (tasks w)\<rparr>)))"
  by (simp add: updateTask_def Let_def split: prod.splits option.splits)

lemma deleteTask_snd:
  "snd (deleteTask e i w) =
     (case map_of (tasks w) i of
        None \<Rightarrow> w
      | Some t \<Rightarrow> snd (notifyTaskUpdate e 0 DELETED t (w\<lparr>tasks := map_delete i (tasks w)\<rparr>)))"
  by (simp add: deleteTask_def Let_def split: prod.splits option.splits)

lemma mutate_registry: "taskUpdateSubscribers (mutate e m w) = taskUpdateSubscribers w"
  by (cases m)
     (simp_all add: createTask_snd updateTask_snd deleteTask_snd notifyTaskUpdate_frame(2)
        split: option.splits)

lemma mutations_registry: "taskUpdateSubscribers (mutations ems w) = taskUpdateSubscribers w"
  by (induction ems arbitrary: w) (simp_all add: mutate_registry)

lemma mutate_received_other:
  assumes "\<forall>en\<in>set (taskUpdateSubscribers w). cb \<in> set (snd en) \<longrightarrow> (\<forall>tid. \<not> key_matches (fst en) tid)"
  shows "received cb (mutate e m w) = received cb w"
proof -
  have n: "received cb (snd (notifyTaskUpdate e k ty t w1)) = received cb w1"
    if "taskUpdateSubscribers w1 = taskUpdateSubscribers w" for k ty t w1
    using notifyTaskUpdate_received_other [of w1 cb t e k ty] assms that by simp
  have r: "received cb (w\<lparr>tasks := ts\<rparr>) = received cb w"
    "received cb (w\<lparr>uuid_calls := c, tasks := ts\<rparr>) = received cb w" for ts c
    by (simp_all add: received_def)
  show ?thesis
    by (cases m)
       (simp_all add: createTask_snd updateTask_snd deleteTask_snd n r split: option.splits)
qed

lemma mutations_received_other:
  assumes "\<forall>en\<in>set (taskUpdateSubscribers w). cb \<in> set (snd en) \<longrightarrow> (\<forall>tid. \<not> key_matches (fst en) tid)"
  shows "received cb (mutations ems w) = received cb w"
  using assms
proof (induction ems arbitrary: w)
  case Nil
  then show ?case by simp
next
  case (Cons em ems)
  have "received cb (mutate (fst em) (snd em) w) = received cb w"
    by (rule mutate_received_other [OF Cons.prems])
  moreover have "received cb (mutations ems (mutate (fst em) (snd em) w))
      = received cb (mutate (fst em) (snd em) w)"
    using Cons.prems by (intro Cons.IH) (simp add: mutate_registry)
  ultimately show ?case by simp
qed

section \<open>The registry after subscribe and unsubscribe\<close>

lemma set_map_set_subset: "set (map_set k v m) \<subseteq> insert (k, v) (set m)"
  by (induction m) auto

lemma set_map_set_distinct:
  "distinct (map fst m) \<Longrightarrow> set (map_set k v m) = insert (k, v) {en \<in> set m. fst en \<noteq> k}"
  by (induction m) (auto simp: rev_image_eqI)

lemma set_map_delete: "set (map_delete k m) = {en \<in> set m. fst en \<noteq> k}"
  by (auto simp: map_delete_def)

lemma map_fst_map_set:
  "map fst (map_set k v m) = (if k \<in> fst ` set m then map fst m else map fst m @ [k])"
  by (induction m) auto

lemma distinct_map_set: "distinct (map fst m) \<Longrightarrow> distinct (map fst (map_set k v m))"
  by (simp add: map_fst_map_set)

lemma distinct_map_delete: "distinct (map fst m) \<Longrightarrow> distinct (map fst (map_delete k m))"
  by (simp add: map_delete_def distinct_map_filter)

lemma subscribeToTaskUpdates_distinct:
  "distinct (map fst (taskUpdateSubscribers w)) \<Longrightarrow>
   distinct (map fst (taskUpdateSubscribers (snd (subscribeToTaskUpdates userId cb taskIds w))))"
  by (simp add: subscribeToTaskUpdates_def Let_def distinct_map_set)

lemma unsubscribe_distinct:
  "distinct (map fst (taskUpdateSubscribers w)) \<Longrightarrow>
   distinct (map fst (taskUpdateSubscribers (unsubscribe h w)))"
  by (simp add: unsubscribe_def Let_def distinct_map_set distinct_map_delete split: option.splits)

lemma subscribeToTaskUpdates_only:
  assumes fresh: "\<forall>en\<in>set (taskUpdateSubscribers w). cb \<notin> set (snd en)"
    and en: "en \<in> set (taskUpdateSubscribers (snd (subscribeToTaskUpdates userId cb taskIds w)))"
    and cb: "cb \<in> set (snd en)"
  shows "fst en = subscription_key userId taskIds"
proof -
  let ?key = "subscription_key userId taskIds"
  let ?subs1 = "if map_of (taskUpdateSubscribers w) ?key = None
                then map_set ?key [] (taskUpdateSubscribers w) else taskUpdateSubscribers w"
  have "set ?subs1 \<subseteq> insert (?key, []) (set (taskUpdateSubscribers w))"
    using set_map_set_subset [of ?key "[]" "taskUpdateSubscribers w"] by auto
  moreover have "en \<in> insert (?key, set_add cb (the (map_of ?subs1 ?key))) (set ?subs1)"
    using en set_map_set_subset [of ?key "set_add cb (the (map_of ?subs1 ?key))" ?subs1]
    by (auto simp: subscribeToTaskUpdates_def Let_def)
  ultimately have "fst en = ?key \<or> en \<in> set (taskUpdateSubscribers w)" by auto
  with fresh cb show ?thesis by auto
qed

lemma unsubscribe_removes:
  assumes keys: "distinct (map fst (taskUpdateSubscribers w))"
    and only: "\<forall>en\<in>set (taskUpdateSubscribers w). snd h \<in> set (snd en) \<longrightarrow> fst en = fst h"
    and en: "en \<in> set (taskUpdateSubscribers (unsubscribe h w))"
  shows "snd h \<notin> set (snd en)"
proof (cases "map_of (taskUpdateSubscribers w) (fst h)")
  case None
  then have "fst h \<notin> fst ` set (taskUpdateSubscribers w)" by (simp add: map_of_eq_None_iff)
  moreover from None en have "en \<in> set (taskUpdateSubscribers w)" by (simp add: unsubscribe_def)
  ultimately show ?thesis using only by force
next
  case (Some subscribers)
  let ?s1 = "removeAll (snd h) subscribers"
  show ?thesis
  proof (cases "?s1 = []")
    case True
    with Some en have "en \<in> {en \<in> set (taskUpdateSubscribers w). fst en \<noteq> fst h}"
      by (simp add: unsubscribe_def Let_def set_map_delete)
    with only show ?thesis by auto
  next
    case False
    with Some en have "en \<in> insert (fst h, ?s1) {en \<in> set (taskUpdateSubscribers w). fst en \<noteq> fst h}"
      by (simp add: unsubscribe_def Let_def set_map_set_distinct [OF keys])
    with only show ?thesis by auto
  qed
qed

lemma unsubscribe_twice: "unsubscribe h (unsubscribe h w) = unsubscribe h w"
proof (cases "map_of (taskUpdateSubscribers w) (fst h)")
  case None
  then show ?thesis by (simp add: unsubscribe_def)
next
  case (Some subscribers)
  show ?thesis
  proof (cases "removeAll (snd h) subscribers = []")
    case True
    with Some show ?thesis by (simp add: unsubscribe_def Let_def map_of_map_delete)
  next
    case False
    with Some show ?thesis by (simp add: unsubscribe_def Let_def map_of_map_set map_set_idem)
  qed
qed

lemma unsubscribe_many: "(unsubscribe h ^^ Suc n) w = unsubscribe h w"
  by (induction n) (simp_all add: unsubscribe_twice)

lemma unsubscribe_received: "received cb (unsubscribe h w) = received cb w"
  by (simp add: unsubscribe_def received_def Let_def split: option.splits)

section \<open>Keys of the registry\<close>

lemma split_on_not_Nil: "split_on c s \<noteq> []"
  by (induction s) auto

lemma split_on_append_sep: "c \<notin> set xs \<Longrightarrow> split_on c (xs @ c # ys) = xs # split_on c ys"
  by (induction xs) auto

lemma split_on_no_sep: "c \<notin> set s \<Longrightarrow> split_on c s = [s]"
  by (induction s) auto

lemma set_join: "set (join sep ids) \<subseteq> set sep \<union> \<Union> (set ` set ids)"
  by (induction sep ids rule: join.induct) auto

lemma split_on_join:
  "ids \<noteq> [] \<Longrightarrow> \<forall>i\<in>set ids. c \<notin> set i \<Longrightarrow> split_on c (join [c] ids) = ids"
proof (induction "[c]" ids rule: join.induct)
  case 1
  then show ?case by simp
next
  case (2 x)
  then show ?case by (simp add: split_on_no_sep)
next
  case (3 x y ys)
  then have "split_on c (join [c] (y # ys)) = y # ys" by simp
  moreover from 3 have "c \<notin> set x" by simp
  ultimately show ?case using split_on_append_sep [of c x "join [c] (y # ys)"] by simp
qed

lemma key_matches_explicit:
  assumes user: "CHR '':'' \<notin> set userId"
    and ids: "\<forall>i\<in>set ids. CHR '':'' \<notin> set i \<and> CHR '','' \<notin> set i"
    and ne: "ids \<noteq> []"
  shows "key_matches (subscription_key userId (Some ids)) tid
           = (join '','' ids \<noteq> [] \<and> tid \<in> set ids)"
proof -
  have "CHR '':'' \<notin> set (join '','' ids)"
    using set_join [of "'',''" ids] ids by auto
  then have "split_on CHR '':'' (userId @ CHR '':'' # join '','' ids) = [userId, join '','' ids]"
    using user by (simp add: split_on_append_sep split_on_no_sep)
  moreover have "split_on CHR '','' (join '','' ids) = ids"
    using split_on_join [OF ne, of "CHR '',''"] ids by simp
  ultimately show ?thesis by (simp add: key_matches_def subscription_key_def)
qed

lemma key_matches_empty_list:
  assumes "CHR '':'' \<notin> set userId"
  shows "\<not> key_matches (userId @ '':'') tid"
proof -
  have "split_on CHR '':'' (userId @ CHR '':'' # []) = [userId, []]"
    using assms by (simp add: split_on_append_sep)
  then show ?thesis by (simp add: key_matches_def)
qed

section \<open>Unsubscribing\<close>

lemma unsubscribe_keys:
  "map fst (taskUpdateSubscribers (unsubscribe h w)) =
     (if removeAll (snd h) (subscribers_of (fst h) w) = []
      then filter (\<lambda>k. k \<noteq> fst h) (map fst (taskUpdateSubscribers w))
      else map fst (taskUpdateSubscribers w))"
proof (cases "map_of (taskUpdateSubscribers w) (fst h)")
  case None
  then have "fst h \<notin> set (map fst (taskUpdateSubscribers w))"
    by (simp add: map_of_eq_None_iff)
  then have "filter (\<lambda>k. k \<noteq> fst h) (map fst (taskUpdateSubscribers w))
      = map fst (taskUpdateSubscribers w)"
    by (intro filter_True) (auto simp: rev_image_eqI)
  with None show ?thesis by (simp add: unsubscribe_def subscribers_of_def)
next
  case (Some cbs)
  then have mem: "fst h \<in> fst ` set (taskUpdateSubscribers w)"
    by (metis map_of_eq_None_iff option.distinct(1))
  show ?thesis
  proof (cases "removeAll (snd h) cbs = []")
    case True
    with Some show ?thesis
      by (simp add: unsubscribe_def subscribers_of_def Let_def map_delete_def filter_map comp_def)
  next
    case False
    with Some mem show ?thesis
      by (simp add: unsubscribe_def subscribers_of_def Let_def map_fst_map_set)
  qed
qed

text \<open>
  C8. The handle returned by \<^verbatim>\<open>subscribeToTaskUpdates\<close> is a total function of the
  state: no call of it raises. The first call removes the handle's callback from the
  subscriber set of the handle's key and nothing else: the other callbacks under that
  key and the sets under every other key are as before, the key itself goes exactly when
  its set becomes empty, the keys keep their order, and tasks, deliveries and the rest
  of the state are untouched. Called once or many times it leaves the state as the first
  call left it. After the first call the callback is in no subscriber set, so no later
  mutation's broadcast calls it: what it has received stays what it was, also after
  further calls of the handle. The last two statements are for a callback registered
  under the handle's key only (each session registers a closure of its own), in a
  registry with one entry per key, as a \<^verbatim>\<open>Map\<close> has.
\<close>

theorem unsubscribe_idempotent:
  assumes keys: "distinct (map fst (taskUpdateSubscribers w))"
    and only: "\<forall>en\<in>set (taskUpdateSubscribers w).
                 cb \<in> set (snd en) \<longrightarrow> fst en = subscription_key userId taskIds"
    and h: "h = fst (subscribeToTaskUpdates userId cb taskIds w0)"
  shows "(unsubscribe h ^^ Suc n) w = unsubscribe h w \<and>
         subscribers_of k (unsubscribe h w) =
           (if k = subscription_key userId taskIds then removeAll cb (subscribers_of k w)
            else subscribers_of k w) \<and>
         map fst (taskUpdateSubscribers (unsubscribe h w)) =
           (if removeAll cb (subscribers_of (subscription_key userId taskIds) w) = []
            then filter (\<lambda>k. k \<noteq> subscription_key userId taskIds)
                   (map fst (taskUpdateSubscribers w))
            else map fst (taskUpdateSubscribers w)) \<and>
         tasks (unsubscribe h w) = tasks w \<and>
         delivered (unsubscribe h w) = delivered w \<and>
         uuid_calls (unsubscribe h w) = uuid_calls w \<and>
         emitted (unsubscribe h w) = emitted w \<and>
         (\<forall>en\<in>set (taskUpdateSubscribers (unsubscribe h w)). cb \<notin> set (snd en)) \<and>
         received cb (mutations ems (unsubscribe h w)) = received cb w \<and>
         received cb (mutations ems ((unsubscribe h ^^ Suc n) w)) = received cb w"
proof -
  have hk: "fst h = subscription_key userId taskIds" and hc: "snd h = cb"
    using h by (simp_all add: subscribeToTaskUpdates_frame)
  have many: "(unsubscribe h ^^ Suc n) w = unsubscribe h w" by (rule unsubscribe_many)
  have own: "subscribers_of k (unsubscribe h w) =
           (if k = subscription_key userId taskIds then removeAll cb (subscribers_of k w)
            else subscribers_of k w)"
    using unsubscribe_subscribers_of [of k h w] hk hc by simp
  have order: "map fst (taskUpdateSubscribers (unsubscribe h w)) =
           (if removeAll cb (subscribers_of (subscription_key userId taskIds) w) = []
            then filter (\<lambda>k. k \<noteq> subscription_key userId taskIds)
                   (map fst (taskUpdateSubscribers w))
            else map fst (taskUpdateSubscribers w))"
    using unsubscribe_keys [of h w] hk hc by simp
  have gone: "\<forall>en\<in>set (taskUpdateSubscribers (unsubscribe h w)). cb \<notin> set (snd en)"
    using unsubscribe_removes [OF keys, of h] only hk hc by auto
  then have "\<forall>en\<in>set (taskUpdateSubscribers (unsubscribe h w)).
      cb \<in> set (snd en) \<longrightarrow> (\<forall>tid. \<not> key_matches (fst en) tid)" by simp
  from mutations_received_other [OF this, of ems]
  have quiet: "received cb (mutations ems (unsubscribe h w)) = received cb w"
    by (simp add: unsubscribe_received)
  from many own order gone quiet show ?thesis by (simp add: unsubscribe_frame)
qed

theorem unsubscribe_idempotent_witness:
  "taskUpdateSubscribers (unsubscribe (''u1'', Listener 3) shared_key)
     = [(''u2'', [SessionSink 2]), (''u1'', [SessionSink 4])] \<and>
   (unsubscribe (''u1'', Listener 3) ^^ 3) shared_key
     = unsubscribe (''u1'', Listener 3) shared_key \<and>
   length (received (Listener 3) (mutations [(demo_env, Create demo_data)] shared_key)) = 1 \<and>
   received (Listener 3)
     (mutations [(demo_env, Create demo_data)] (unsubscribe (''u1'', Listener 3) shared_key)) = [] \<and>
   map fst (delivered
     (mutations [(demo_env, Create demo_data)] (unsubscribe (''u1'', Listener 3) shared_key)))
     = [SessionSink 2, SessionSink 4]"
proof -
  have reg: "taskUpdateSubscribers shared_key
      = [(''u2'', [SessionSink 2]), (''u1'', [SessionSink 4, Listener 3])]"
    by (simp add: shared_key_def)
  have keys: "distinct (map fst (taskUpdateSubscribers shared_key))" by (simp add: reg)
  have only: "\<forall>en\<in>set (taskUpdateSubscribers shared_key).
      Listener 3 \<in> set (snd en) \<longrightarrow> fst en = subscription_key ''u1'' None"
    by (simp add: reg subscription_key_def)
  have h: "(''u1'', Listener 3) = fst (subscribeToTaskUpdates ''u1'' (Listener 3) None demo_store)"
    by (simp add: subscribeToTaskUpdates_frame subscription_key_def)
  have before: "received (Listener 3) shared_key = []"
    by (simp add: shared_key_def received_def demo_store_def empty_world_def)
  have after: "taskUpdateSubscribers (unsubscribe (''u1'', Listener 3) shared_key)
     = [(''u2'', [SessionSink 2]), (''u1'', [SessionSink 4])]"
    by (simp add: unsubscribe_def reg Let_def)
  have one: "length (received (Listener 3)
      (mutations [(demo_env, Create demo_data)] shared_key)) = 1"
    using reg before
    by (simp add: createTask_snd notifyTaskUpdate_def key_matches_general received_def
        demo_env_fields)
  have others: "map fst (delivered
     (mutations [(demo_env, Create demo_data)] (unsubscribe (''u1'', Listener 3) shared_key)))
     = [SessionSink 2, SessionSink 4]"
    using after
    by (simp add: createTask_snd notifyTaskUpdate_def key_matches_general demo_env_fields
        unsubscribe_frame shared_key_def demo_store_def empty_world_def)
  from unsubscribe_idempotent [OF keys only h, of 2 _ "[(demo_env, Create demo_data)]"]
    before one after others
  show ?thesis by (simp add: numeral_3_eq_3)
qed

section \<open>An explicit, empty list of identifiers\<close>

text \<open>
  A subscriber whose user identifier has no \<^verbatim>\<open>':'\<close> and who registers with an
  explicit, empty list of task identifiers is keyed by the user identifier followed by
  \<^verbatim>\<open>':'\<close>: a filtered key, not the key of the subscriber without a list. The test of
  the broadcast fails on that key for every task identifier, so through any sequence of
  later mutations the callback (a new one, registered nowhere else) receives nothing.
\<close>

lemma empty_task_ids_without_colon:
  assumes colon: "CHR '':'' \<notin> set userId"
    and fresh: "\<forall>en\<in>set (taskUpdateSubscribers w0). cb \<notin> set (snd en)"
  shows "fst (subscribeToTaskUpdates userId cb (Some []) w0) = (userId @ '':'', cb) \<and>
         subscription_key userId (Some []) \<noteq> subscription_key userId None \<and>
         \<not> key_matches (subscription_key userId (Some [])) tid \<and>
         key_matches (subscription_key userId None) tid \<and>
         received cb (mutations ems (snd (subscribeToTaskUpdates userId cb (Some []) w0)))
           = received cb w0"
proof -
  let ?w1 = "snd (subscribeToTaskUpdates userId cb (Some []) w0)"
  have key: "subscription_key userId (Some []) = userId @ '':''"
    by (simp add: subscription_key_def)
  have never: "\<not> key_matches (userId @ '':'') t" for t
    by (rule key_matches_empty_list [OF colon])
  have "\<forall>en\<in>set (taskUpdateSubscribers ?w1).
      cb \<in> set (snd en) \<longrightarrow> (\<forall>t. \<not> key_matches (fst en) t)"
    using subscribeToTaskUpdates_only [OF fresh, of _ userId "Some []"] key never by auto
  from mutations_received_other [OF this, of ems]
  have "received cb (mutations ems ?w1) = received cb w0"
    by (simp add: received_def subscribeToTaskUpdates_frame)
  moreover have "key_matches (subscription_key userId None) tid"
    using colon by (simp add: subscription_key_def key_matches_general)
  ultimately show ?thesis
    using never [of tid] by (simp add: subscribeToTaskUpdates_frame key subscription_key_def)
qed

text \<open>
  C9 fails on the code for a user identifier with \<^verbatim>\<open>':'\<close> in it. The subscriber
  \<^verbatim>\<open>u:a\<close> registers with the empty list; the key is \<^verbatim>\<open>u:a:\<close>, whose second piece
  between colons is \<^verbatim>\<open>a\<close>, not the empty list of identifiers; the update of task
  \<^verbatim>\<open>a\<close> is delivered to the subscriber, who should receive nothing.
\<close>

theorem empty_task_ids_colon_leak:
  "subscription_key ''u:a'' (Some []) = ''u:a:'' \<and>
   map (\<lambda>u. (type_u u, id_of (task_u u)))
     (received (SessionSink 2)
        (mutate demo_env (Update ''a'' demo_patch)
           (snd (subscribeToTaskUpdates ''u:a'' (SessionSink 2) (Some []) demo_store))))
     = [(UPDATED, ''a'')]"
  by (simp add: subscribeToTaskUpdates_def subscription_key_def set_add_def demo_store_def
      empty_world_def Let_def updateTask_snd notifyTaskUpdate_def key_matches_def received_def
      demo_env_fields merge_task_def task_a_def)

section \<open>An identifier with a separator in it\<close>

text \<open>
  C3 fails on the code for an identifier list with a comma inside an identifier. The
  subscriber asks for the one identifier \<^verbatim>\<open>x,a\<close>; the key is \<^verbatim>\<open>u1:x,a\<close>, which
  the broadcast splits into \<^verbatim>\<open>x\<close> and \<^verbatim>\<open>a\<close>; the update of task \<^verbatim>\<open>a\<close>, which is
  not in the subscriber's set, is delivered to it.
\<close>

theorem explicit_set_leak:
  "''a'' \<notin> set (the (s_task_ids comma_request)) \<and>
   map (\<lambda>d. (fst d, type_u (snd d), id_of (task_u (snd d))))
     (delivered (mutate demo_env (Update ''a'' demo_patch)
        (SubscribeTaskUpdates demo_env 2 [''Bearer good''] comma_request demo_store)))
     = [(SessionSink 2, CREATED, ''connection''), (SessionSink 2, UPDATED, ''a'')]"
  by (simp add: comma_request_def SubscribeTaskUpdates_def demo_authenticated
      subscribeToTaskUpdates_def subscription_key_def set_add_def demo_store_def
      empty_world_def Let_def updateTask_snd notifyTaskUpdate_def key_matches_def
      connection_update_def demo_env_fields merge_task_def task_a_def)

section \<open>Listing\<close>

lemma listTasks_unfold:
  "listTasks f w =
     \<lparr>r_tasks = js_slice ((page f - 1) * page_size f) ((page f - 1) * page_size f + page_size f)
                  (sort_key (\<lambda>t. - created_at t) (filter (matches_filter f) (map snd (tasks w)))),
      r_total_count = length (filter (matches_filter f) (map snd (tasks w))),
      r_page = page f, r_page_size = page_size f\<rparr>"
proof -
  have "(case assignee_filter f of
           Some a \<Rightarrow> (if a = [] then xs2 else filter (\<lambda>t. assignee_id t = a) xs2)
         | None \<Rightarrow> xs2)
        = filter (matches_filter f) (map snd (tasks w))"
    if "xs2 = (case priority_filter f of Some p \<Rightarrow> filter (\<lambda>t. priority t = p) xs1 | None \<Rightarrow> xs1)"
      and "xs1 = (case status_filter f of Some s \<Rightarrow> filter (\<lambda>t. status t = s) (map snd (tasks w))
                  | None \<Rightarrow> map snd (tasks w))" for xs1 xs2
    unfolding that
    by (auto simp: matches_filter_def split: option.splits intro!: filter_cong)
  then show ?thesis by (simp add: listTasks_def Let_def)
qed

lemma js_slice_sublist: "sublist (js_slice a b xs) xs"
proof -
  have "sublist (take n (drop k xs)) (drop k xs)" for n k by simp
  moreover have "sublist (drop k xs) xs" for k by simp
  ultimately have "sublist (take n (drop k xs)) xs" for n k
    using sublist_order.order_trans by blast
  then show ?thesis by (simp add: js_slice_def Let_def)
qed

lemma js_slice_sorted: "sorted_wrt R xs \<Longrightarrow> sorted_wrt R (js_slice a b xs)"
  by (simp add: js_slice_def Let_def)

lemma length_js_slice_nonneg:
  assumes "0 \<le> b - a"
  shows "int (length (js_slice a b xs)) \<le> b - a"
  using assms by (auto simp: js_slice_def Let_def min_def max_def)

text \<open>
  C6, as the code has it. The page is in descending order of creation timestamp, and
  the records of the page that share a creation timestamp are in the order in which the
  store holds them, the order of insertion: the sort is stable and compares nothing but
  the timestamps.
\<close>

theorem listTasks_order:
  "sorted_wrt (\<lambda>a b. created_at b \<le> created_at a) (r_tasks (listTasks f w)) \<and>
   subseq (filter (\<lambda>t. created_at t = c) (r_tasks (listTasks f w))) (map snd (tasks w))"
proof -
  let ?xs = "filter (matches_filter f) (map snd (tasks w))"
  let ?ys = "sort_key (\<lambda>t. - created_at t) ?xs"
  let ?a = "(page f - 1) * page_size f"
  have page: "r_tasks (listTasks f w) = js_slice ?a (?a + page_size f) ?ys"
    by (simp add: listTasks_unfold)
  have "sorted (map (\<lambda>t. - created_at t) ?ys)" by (rule sorted_sort_key)
  then have "sorted_wrt (\<lambda>a b. created_at b \<le> created_at a) ?ys"
    by (simp add: sorted_map)
  then have sorted: "sorted_wrt (\<lambda>a b. created_at b \<le> created_at a) (r_tasks (listTasks f w))"
    unfolding page by (rule js_slice_sorted)
  have "subseq (r_tasks (listTasks f w)) ?ys"
    unfolding page by (rule sublist_imp_subseq [OF js_slice_sublist])
  then have "subseq (filter (\<lambda>t. created_at t = c) (r_tasks (listTasks f w)))
      (filter (\<lambda>t. created_at t = c) ?ys)" by (rule subseq_filter)
  moreover have "filter (\<lambda>t. created_at t = c) ?ys = filter (\<lambda>t. created_at t = c) ?xs"
    using sort_key_stable [of "\<lambda>t. - created_at t" "- c" ?xs] by simp
  moreover have "subseq (filter (\<lambda>t. created_at t = c) ?xs) ?xs"
    by (rule subseq_filter_left)
  moreover have "subseq ?xs (map snd (tasks w))"
    by (rule subseq_filter_left)
  ultimately have "subseq (filter (\<lambda>t. created_at t = c) (r_tasks (listTasks f w)))
      (map snd (tasks w))"
    using subseq_order.order_trans by metis
  with sorted show ?thesis by simp
qed

text \<open>
  C6 as stated fails. Two records with the same creation timestamp come out in the
  order of insertion: \<^verbatim>\<open>b\<close> before \<^verbatim>\<open>a\<close> from the store that received \<^verbatim>\<open>b\<close> first,
  \<^verbatim>\<open>a\<close> before \<^verbatim>\<open>b\<close> from the store that holds the same two records and received
  \<^verbatim>\<open>a\<close> first. The order is not by identifier, and is not a function of the set of
  records.
\<close>

theorem tie_order_counterexample:
  "created_at task_a = created_at task_b \<and>
   set (tasks swapped_store) = set (tasks demo_store) \<and>
   map id_of (r_tasks (listTasks demo_filter demo_store)) = [''b'', ''a''] \<and>
   map id_of (r_tasks (listTasks demo_filter swapped_store)) = [''a'', ''b'']"
  by (simp add: listTasks_def js_slice_def demo_filter_def demo_store_def swapped_store_def
      empty_world_def task_a_def task_b_def Let_def insert_commute)

text \<open>The count of matches, and the bound on the page for a size that is not negative.\<close>

lemma listTasks_total_count:
  "r_total_count (listTasks f w) = length (filter (matches_filter f) (map snd (tasks w)))"
  by (simp add: listTasks_unfold)

lemma listTasks_page_bound:
  "0 \<le> page_size f \<Longrightarrow> int (length (r_tasks (listTasks f w))) \<le> page_size f"
  using length_js_slice_nonneg [of "(page f - 1) * page_size f + page_size f" "(page f - 1) * page_size f"]
  by (simp add: listTasks_unfold)

lemma ListTasks_page_bound:
  assumes "ListTasks e metadata request w = Inr r"
    and "0 \<le> or_default (l_page_size request) 10"
  shows "int (length (r_tasks r)) \<le> min (or_default (l_page_size request) 10) 100 \<and>
         r_page_size r = min (or_default (l_page_size request) 10) 100"
proof -
  let ?f = "\<lparr>page = or_default (l_page request) 1,
             page_size = min (or_default (l_page_size request) 10) 100,
             status_filter = l_status_filter request,
             priority_filter = l_priority_filter request,
             assignee_filter = l_assignee_filter request\<rparr>"
  from assms(1) have r: "r = listTasks ?f w"
    by (auto simp: ListTasks_def Let_def split: option.splits)
  have "0 \<le> page_size ?f" using assms(2) by simp
  from listTasks_page_bound [OF this, of w] show ?thesis
    by (simp add: r listTasks_unfold)
qed

text \<open>
  C7 fails on the code for a negative \<^verbatim>\<open>page_size\<close>. \<^verbatim>\<open>Math.min(-1, 100)\<close> is
  \<^verbatim>\<open>-1\<close>, the slice runs from index 0 to the last element but one, and a store of 102
  records answers with a page of 101: more than 100, and more than the page size it
  reports.
\<close>

theorem negative_page_size_overflow:
  "map_sum id (\<lambda>r. (length (r_tasks r), r_total_count r, r_page_size r))
     (ListTasks demo_env [''Bearer good''] negative_size big_store)
     = Inr (101, 102, - 1)"
  by (simp add: ListTasks_def demo_authenticated negative_size_def or_default_def
      listTasks_unfold js_slice_def big_store_def empty_world_def matches_filter_def Let_def)

end
